theory Spec2Isabelle
  imports Complex_Main "HOL-Library.AList" "HOL-Library.Word"
begin

section \<open>JSON documents\<close>

text \<open>
  The recorder handles every stream frame through \<^verbatim>\<open>encoding/json\<close>. A payload
  (\<^verbatim>\<open>[]byte\<close>) is represented by the document it decodes to: \<open>None\<close> when the
  bytes are not valid JSON, \<open>Some j\<close> otherwise. Objects are association lists
  (lookup with \<open>map_of\<close>, assignment with \<open>AList.update\<close>, \<^verbatim>\<open>delete\<close> with
  \<open>AList.delete\<close>); numbers are the values of Go's \<^verbatim>\<open>float64\<close>, read as reals.
  \<^verbatim>\<open>json.Marshal\<close> of a decoded tree gives the payload \<open>Some j\<close>;
  \<^verbatim>\<open>json.Unmarshal\<close> into \<^verbatim>\<open>map[string]interface{}\<close> succeeds on objects (and on
  \<^verbatim>\<open>null\<close>, which leaves the map nil) and fails on everything else. Field names are
  matched exactly (Go also accepts a key that differs from a struct field's name in
  case only; that is not modelled).
\<close>

datatype json =
    JNull
  | JBool bool
  | JNum real
  | JStr string
  | JArr "json list"
  | JObj "(string \<times> json) list"

type_synonym payload = "json option"

datatype err =
    Canceled
  | DeadlineExceeded
  | EOF
  | Msg string
  | Wrapped string "err option"

text \<open>\<^verbatim>\<open>errors.Is(err, target)\<close> for a sentinel target: walks the \<^verbatim>\<open>%w\<close> chain.\<close>

fun errors_Is :: "err \<Rightarrow> err \<Rightarrow> bool" where
  "errors_Is (Wrapped s (Some e)) t = errors_Is e t"
| "errors_Is (Wrapped s None) t = False"
| "errors_Is e t = (e = t)"

text \<open>
  Decoding one field of a Go struct whose type is \<^verbatim>\<open>string\<close>: an absent key and
  \<^verbatim>\<open>null\<close> leave the zero value, a string is stored, any other value is an
  \<^verbatim>\<open>UnmarshalTypeError\<close> (\<open>None\<close>), which makes \<^verbatim>\<open>json.Unmarshal\<close> return an error.
\<close>

definition string_field :: "(string \<times> json) list \<Rightarrow> string \<Rightarrow> string option" where
  "string_field obj k =
     (case map_of obj k of
        None \<Rightarrow> Some []
      | Some JNull \<Rightarrow> Some []
      | Some (JStr s) \<Rightarrow> Some s
      | Some _ \<Rightarrow> None)"

section \<open>market.go: extractors over payloads\<close>

definition ExtractOp :: "payload \<Rightarrow> string" where
  "ExtractOp raw =
     (case raw of
        Some (JObj obj) \<Rightarrow> (case string_field obj ''op'' of Some s \<Rightarrow> s | None \<Rightarrow> [])
      | _ \<Rightarrow> [])"

definition ExtractChangeType :: "payload \<Rightarrow> string" where
  "ExtractChangeType raw =
     (case raw of
        Some (JObj obj) \<Rightarrow> (case string_field obj ''ct'' of Some s \<Rightarrow> s | None \<Rightarrow> [])
      | _ \<Rightarrow> [])"

definition ExtractAndStoreClock :: "payload \<Rightarrow> string \<times> string" where
  "ExtractAndStoreClock raw =
     (case raw of
        Some (JObj obj) \<Rightarrow>
          (case (string_field obj ''initialClk'', string_field obj ''clk'') of
             (Some i, Some c) \<Rightarrow> (i, c)
           | _ \<Rightarrow> ([], []))
      | _ \<Rightarrow> ([], []))"

definition IsMarketSettled :: "string \<Rightarrow> bool" where
  "IsMarketSettled status = (status = ''CLOSED'')"

definition RemoveIDField :: "payload \<Rightarrow> err + payload" where
  "RemoveIDField raw =
     (case raw of
        None \<Rightarrow> Inl (Msg ''invalid character'')
      | Some (JObj msg) \<Rightarrow> Inr (Some (JObj (AList.delete ''id'' msg)))
      | Some JNull \<Rightarrow> Inr (Some JNull)
      | Some _ \<Rightarrow> Inl (Msg ''json: cannot unmarshal into Go value of type map[string]interface {}''))"


text \<open>
  \<^verbatim>\<open>time.Time\<close> as far as \<^verbatim>\<open>ExtractEventInfo\<close> reads it: the calendar date in the
  time's own location. The zero value is January 1 of year 1.
\<close>

datatype month =
    January | February | March | April | May | June
  | July | August | September | October | November | December

record time =
  year :: int
  month :: month
  day :: nat

definition zero_time :: time where
  "zero_time = \<lparr>year = 1, month = January, day = 1\<rparr>"

text \<open>\<^verbatim>\<open>Format("Jan")\<close>: the three-letter English month name.\<close>

fun month_abbrev :: "month \<Rightarrow> string" where
  "month_abbrev January = ''Jan''"
| "month_abbrev February = ''Feb''"
| "month_abbrev March = ''Mar''"
| "month_abbrev April = ''Apr''"
| "month_abbrev May = ''May''"
| "month_abbrev June = ''Jun''"
| "month_abbrev July = ''Jul''"
| "month_abbrev August = ''Aug''"
| "month_abbrev September = ''Sep''"
| "month_abbrev October = ''Oct''"
| "month_abbrev November = ''Nov''"
| "month_abbrev December = ''Dec''"

text \<open>\<^verbatim>\<open>strconv.Itoa\<close>: decimal digits, most significant first, a minus sign for negatives.\<close>

fun digits :: "nat \<Rightarrow> string" where
  "digits n = (if n < 10 then [''0123456789'' ! n]
               else digits (n div 10) @ [''0123456789'' ! (n mod 10)])"

declare digits.simps [simp del]

definition Itoa :: "int \<Rightarrow> string" where
  "Itoa i = (if i < 0 then CHR ''-'' # digits (nat (- i)) else digits (nat i))"

record EventInfo =
  EventID :: string
  Date :: time
  Year :: string
  Month :: string
  Day :: string

text \<open>
  Decoding into the anonymous struct of \<^verbatim>\<open>ExtractEventInfo\<close>
  (\<^verbatim>\<open>MC []struct{MarketDefinition struct{EventID string; OpenDate time.Time}}\<close>).
  \<open>parse\<close> stands for \<^verbatim>\<open>time.Time.UnmarshalJSON\<close> on the text of a JSON string (RFC 3339);
  \<open>None\<close> is a decoding error, which \<^verbatim>\<open>json.Unmarshal\<close> reports after the document.
\<close>

definition time_field :: "(string \<Rightarrow> time option) \<Rightarrow> (string \<times> json) list \<Rightarrow> string \<Rightarrow> time option" where
  "time_field parse obj k =
     (case map_of obj k of
        None \<Rightarrow> Some zero_time
      | Some JNull \<Rightarrow> Some zero_time
      | Some (JStr s) \<Rightarrow> parse s
      | Some _ \<Rightarrow> None)"

definition decode_marketDefinition :: "(string \<Rightarrow> time option) \<Rightarrow> json \<Rightarrow> (string \<times> time) option" where
  "decode_marketDefinition parse j =
     (case j of
        JNull \<Rightarrow> Some ([], zero_time)
      | JObj md \<Rightarrow>
          (case (string_field md ''eventId'', time_field parse md ''openDate'') of
             (Some e, Some t) \<Rightarrow> Some (e, t)
           | _ \<Rightarrow> None)
      | _ \<Rightarrow> None)"

definition decode_mc_entry :: "(string \<Rightarrow> time option) \<Rightarrow> json \<Rightarrow> (string \<times> time) option" where
  "decode_mc_entry parse j =
     (case j of
        JNull \<Rightarrow> Some ([], zero_time)
      | JObj entry \<Rightarrow>
          (case map_of entry ''marketDefinition'' of
             None \<Rightarrow> Some ([], zero_time)
           | Some d \<Rightarrow> decode_marketDefinition parse d)
      | _ \<Rightarrow> None)"

definition decode_mcm :: "(string \<Rightarrow> time option) \<Rightarrow> payload \<Rightarrow> (string \<times> time) list option" where
  "decode_mcm parse raw =
     (case raw of
        None \<Rightarrow> None
      | Some JNull \<Rightarrow> Some []
      | Some (JObj obj) \<Rightarrow>
          (case map_of obj ''mc'' of
             None \<Rightarrow> Some []
           | Some JNull \<Rightarrow> Some []
           | Some (JArr xs) \<Rightarrow> those (map (decode_mc_entry parse) xs)
           | Some _ \<Rightarrow> None)
      | Some _ \<Rightarrow> None)"

definition ExtractEventInfo :: "(string \<Rightarrow> time option) \<Rightarrow> payload \<Rightarrow> err + EventInfo" where
  "ExtractEventInfo parse raw =
     (case decode_mcm parse raw of
        None \<Rightarrow> Inl (Msg ''json: cannot unmarshal'')
      | Some [] \<Rightarrow> Inl (Msg ''no event information found'')
      | Some ((eventId, openDate) # rest) \<Rightarrow>
          if eventId = [] then Inl (Msg ''no event information found'')
          else Inr \<lparr>EventID = eventId, Date = openDate,
                    Year = Itoa (year openDate),
                    Month = month_abbrev (month openDate),
                    Day = Itoa (int (day openDate))\<rparr>)"

section \<open>stream.go: reading one frame\<close>

type_synonym byte = "8 word"

definition isGzip :: "byte list \<Rightarrow> bool" where
  "isGzip data = (length data > 2 \<and> data ! 0 = 0x1f \<and> data ! 1 = 0x8b)"

text \<open>
  \<^verbatim>\<open>StreamConn.ReadMessage\<close>. The buffered reader is the list of lines that
  \<^verbatim>\<open>ReadBytes('\n')\<close> will deliver, followed by the error \<open>e\<close> it returns once they are
  used up. \<open>trim\<close> is \<^verbatim>\<open>bytes.TrimSpace\<close> and \<open>gunzip\<close> is \<^verbatim>\<open>ungzip\<close>
  (\<^verbatim>\<open>compress/gzip\<close>); the result is the value returned and the lines left unread.
\<close>

fun ReadMessage ::
  "(byte list \<Rightarrow> byte list) \<Rightarrow> (byte list \<Rightarrow> err + byte list) \<Rightarrow> err \<Rightarrow> byte list list
     \<Rightarrow> (err + byte list) \<times> byte list list" where
  "ReadMessage trim gunzip e [] = (Inl e, [])"
| "ReadMessage trim gunzip e (line # rest) =
     (let trimmed = trim line in
      if length trimmed = 0 then ReadMessage trim gunzip e rest
      else if isGzip trimmed then
        (case gunzip trimmed of
           Inl er \<Rightarrow> (Inl er, rest)
         | Inr payload \<Rightarrow> (Inr (trim payload), rest))
      else (Inr trimmed, rest))"

text \<open>Sample instances of the two library functions for the worked examples below:
  trimming of ASCII white space, and a decoder that rejects its input.\<close>

definition is_space :: "byte \<Rightarrow> bool" where
  "is_space b = (b = 0x20 \<or> b = 0x09 \<or> b = 0x0a \<or> b = 0x0b \<or> b = 0x0c \<or> b = 0x0d)"

definition trim_ascii :: "byte list \<Rightarrow> byte list" where
  "trim_ascii bs = rev (dropWhile is_space (rev (dropWhile is_space bs)))"

definition gunzip_reject :: "byte list \<Rightarrow> err + byte list" where
  "gunzip_reject bs = Inl (Msg ''create gzip reader: unexpected EOF'')"

section \<open>storage.go and the file manager: paths and keys\<close>

text \<open>
  \<^verbatim>\<open>path/filepath\<close> on a host whose \<^verbatim>\<open>Separator\<close> is the forward slash.
  \<^verbatim>\<open>Clean\<close> works on the elements between slashes: empty elements and \<^verbatim>\<open>.\<close> are dropped,
  \<^verbatim>\<open>..\<close> removes the element before it when there is one that is not itself \<^verbatim>\<open>..\<close>,
  is dropped at the root of a rooted path and is kept otherwise; an empty result is \<^verbatim>\<open>.\<close>.
  The stack of kept elements is held in reverse.
\<close>

fun split_slash :: "string \<Rightarrow> string list" where
  "split_slash [] = [[]]"
| "split_slash (c # cs) =
     (if c = CHR ''/'' then [] # split_slash cs
      else (case split_slash cs of
              [] \<Rightarrow> [[c]]
            | w # ws \<Rightarrow> (c # w) # ws))"

fun join_slash :: "string list \<Rightarrow> string" where
  "join_slash [] = []"
| "join_slash [x] = x"
| "join_slash (x # y # ys) = x @ CHR ''/'' # join_slash (y # ys)"

fun clean_elems :: "bool \<Rightarrow> string list \<Rightarrow> string list \<Rightarrow> string list" where
  "clean_elems rooted out [] = rev out"
| "clean_elems rooted out (e # es) =
     (if e = [] \<or> e = ''.'' then clean_elems rooted out es
      else if e = ''..'' then
        (case out of
           [] \<Rightarrow> if rooted then clean_elems rooted out es
                 else clean_elems rooted [''..''] es
         | prev # below \<Rightarrow>
             if prev = ''..'' then clean_elems rooted (''..'' # out) es
             else clean_elems rooted below es)
      else clean_elems rooted (e # out) es)"

definition Clean :: "string \<Rightarrow> string" where
  "Clean path =
     (if path = [] then ''.''
      else let rooted = (hd path = CHR ''/'');
               body = join_slash (clean_elems rooted [] (split_slash path));
               res = (if rooted then CHR ''/'' # body else body)
           in if res = [] then ''.'' else res)"

definition Join :: "string list \<Rightarrow> string" where
  "Join elem =
     (case dropWhile (\<lambda>e. e = []) elem of
        [] \<Rightarrow> []
      | es \<Rightarrow> Clean (join_slash es))"

record S3Storage =
  bucket :: string
  basePath :: string

definition BuildS3Key :: "S3Storage \<Rightarrow> EventInfo \<Rightarrow> string \<Rightarrow> string" where
  "BuildS3Key s eventInfo filename =
     (let base = (if basePath s = [] then ''raw_greyhounds_data'' else basePath s)
      in Join [base, ''PRO'', Year eventInfo, Month eventInfo, Day eventInfo,
               EventID eventInfo, filename])"

record FileManager =
  outputPath :: string

definition NewFileManager :: "string \<Rightarrow> FileManager" where
  "NewFileManager out = \<lparr>outputPath = (if out = [] then ''market_files'' else out)\<rparr>"

definition GetMarketFilePath :: "FileManager \<Rightarrow> string \<Rightarrow> string" where
  "GetMarketFilePath fm marketID = Join [outputPath fm, marketID]"

definition GetCompressedFilePath :: "FileManager \<Rightarrow> string \<Rightarrow> string" where
  "GetCompressedFilePath fm marketID = Join [outputPath fm, marketID @ ''.bz2'']"

section \<open>The recorder's state and its environment\<close>

text \<open>The fields of the REST types that \<^verbatim>\<open>enrichMarketData\<close> reads.\<close>

record RunnerCatalog =
  SelectionID :: int
  RunnerName :: string
  Handicap :: real
  SortPriority :: int

record Event =
  Event_Name :: string
  Event_Venue :: string

record EventType =
  EventType_Name :: string

record Competition =
  Competition_Name :: string

record MarketCatalogue =
  MarketName :: string
  Runners :: "RunnerCatalog list"
  EventType :: "EventType option"
  Competition :: "Competition option"
  Event :: "Event option"

text \<open>
  A file is the sequence of what was written to it: lines of the log, or the bzip2
  stream of another content, or the torn output of a copy that failed.
\<close>

datatype chunk = Line payload | Bz2 "chunk list" | Torn

text \<open>A \<^verbatim>\<open>bufio.Writer\<close> over an open file: the descriptor, the path it was opened at,
  and the lines buffered but not yet flushed.\<close>

record writer =
  w_fd :: nat
  w_path :: string
  w_buf :: "payload list"

text \<open>What the recorder does to the outside, in order.\<close>

datatype event =
    EvFetch string
  | EvCreate string string
  | EvWrite string payload
  | EvFlush string
  | EvSettle string
  | EvCompress string string
  | EvUpload string string
  | EvRemove string

text \<open>
  One record holds the \<^verbatim>\<open>MarketRecorder\<close> fields that the steady-state loop uses
  (\<open>fileManager\<close>, \<open>storage\<close>, \<open>initialClk\<close>, \<open>clk\<close>, \<open>marketCatalogues\<close>), the three
  maps that \<^verbatim>\<open>Run\<close> owns and passes down (\<open>writers\<close>, \<open>files\<close>, \<open>marketStatuses\<close>), and
  the environment: the local file system by path (POSIX: a file can be removed while
  open), the open descriptors, the bucket by key, and the log of events.
  \<open>parseTime\<close> is the library's RFC 3339 parser.
\<close>

record state =
  fileManager :: FileManager
  storage :: "S3Storage option"
  parseTime :: "string \<Rightarrow> time option"
  initialClk :: string
  clk :: string
  marketCatalogues :: "string \<rightharpoonup> MarketCatalogue"
  writers :: "string \<rightharpoonup> writer"
  files :: "string \<rightharpoonup> nat"
  marketStatuses :: "string \<rightharpoonup> string"
  fs :: "string \<rightharpoonup> chunk list"
  open_fds :: "nat list"
  next_fd :: nat
  s3 :: "string \<rightharpoonup> chunk list"
  events :: "event list"

text \<open>
  The outcomes of the fallible calls made while one market change is handled: the
  catalogue the REST call returns (\<open>None\<close>: an error or an empty list), and whether
  creating the file, writing, flushing, compressing and uploading succeed.
\<close>

datatype compress_outcome = CompressDone | CreateFailed | CopyFailed

record io =
  fetch :: "MarketCatalogue option"
  create_ok :: bool
  write_ok :: bool
  flush_ok :: bool
  settle_flush_ok :: bool
  compress :: compress_outcome
  upload_ok :: bool

definition log_event :: "event \<Rightarrow> state \<Rightarrow> state" where
  "log_event ev st = st\<lparr>events := events st @ [ev]\<rparr>"

section \<open>The file manager\<close>

text \<open>\<^verbatim>\<open>os.Create\<close> truncates: whatever the path held, it holds nothing afterwards.\<close>

definition CreateMarketWriter :: "bool \<Rightarrow> string \<Rightarrow> state \<Rightarrow> (err + writer) \<times> state" where
  "CreateMarketWriter ok marketID st =
     (let filePath = Join [outputPath (fileManager st), marketID];
          st1 = log_event (EvCreate marketID filePath) st
      in if \<not> ok then (Inl (Msg ''create market file''), st1)
         else (Inr \<lparr>w_fd = next_fd st, w_path = filePath, w_buf = []\<rparr>,
               st1\<lparr>fs := (fs st)(filePath \<mapsto> []),
                    open_fds := next_fd st # open_fds st,
                    next_fd := Suc (next_fd st)\<rparr>))"

text \<open>\<^verbatim>\<open>bufio.Writer.Flush\<close>: the buffered lines reach the file the writer was opened on.\<close>

definition flush_writer :: "writer \<Rightarrow> state \<Rightarrow> state" where
  "flush_writer w st =
     (case fs st (w_path w) of
        None \<Rightarrow> st
      | Some content \<Rightarrow> st\<lparr>fs := (fs st)(w_path w \<mapsto> content @ map Line (w_buf w))\<rparr>)"

definition CompressToBzip2 :: "compress_outcome \<Rightarrow> string \<Rightarrow> string \<Rightarrow> state \<Rightarrow> err option \<times> state" where
  "CompressToBzip2 outcome inputFile outputFile st =
     (let st1 = log_event (EvCompress inputFile outputFile) st in
      case fs st inputFile of
        None \<Rightarrow> (Some (Msg ''open input file''), st1)
      | Some content \<Rightarrow>
          (case outcome of
             CreateFailed \<Rightarrow> (Some (Msg ''create output file''), st1)
           | CopyFailed \<Rightarrow> (Some (Msg ''compress data''), st1\<lparr>fs := (fs st)(outputFile \<mapsto> [Torn])\<rparr>)
           | CompressDone \<Rightarrow> (None, st1\<lparr>fs := (fs st)(outputFile \<mapsto> [Bz2 content])\<rparr>)))"

text \<open>\<^verbatim>\<open>os.Remove\<close> per file, errors ignored; removing an existing file is taken to succeed.\<close>

fun CleanupFiles :: "string list \<Rightarrow> state \<Rightarrow> state" where
  "CleanupFiles [] st = st"
| "CleanupFiles (file # rest) st =
     CleanupFiles rest ((log_event (EvRemove file) st)\<lparr>fs := (fs st)(file := None)\<rparr>)"

definition Upload :: "bool \<Rightarrow> string \<Rightarrow> string \<Rightarrow> state \<Rightarrow> err option \<times> state" where
  "Upload ok filePath s3Key st =
     (case fs st filePath of
        None \<Rightarrow> (Some (Msg ''open file''), st)
      | Some content \<Rightarrow>
          (let st1 = log_event (EvUpload filePath s3Key) st in
           if ok then (None, st1\<lparr>s3 := (s3 st)(s3Key \<mapsto> content)\<rparr>)
           else (Some (Msg ''upload to S3''), st1)))"

section \<open>recorder.go\<close>

definition createWriterForMarket :: "bool \<Rightarrow> string \<Rightarrow> state \<Rightarrow> err option \<times> state" where
  "createWriterForMarket ok marketID st =
     (let created = CreateMarketWriter ok marketID st;
          st1 = snd created
      in case fst created of
           Inl e \<Rightarrow> (Some e, st1)
         | Inr w \<Rightarrow>
             (None, st1\<lparr>writers := (writers st1)(marketID \<mapsto> w),
                         files := (files st1)(marketID \<mapsto> w_fd w)\<rparr>))"

definition fetchMarketCatalogue :: "io \<Rightarrow> string \<Rightarrow> state \<Rightarrow> err option \<times> state" where
  "fetchMarketCatalogue env marketID st =
     (case marketCatalogues st marketID of
        Some c \<Rightarrow> (None, st)
      | None \<Rightarrow>
          (let st1 = log_event (EvFetch marketID) st in
           case fetch env of
             None \<Rightarrow> (Some (Msg ''failed to fetch market catalogue''), st1)
           | Some c \<Rightarrow> (None, st1\<lparr>marketCatalogues := (marketCatalogues st)(marketID \<mapsto> c)\<rparr>)))"

text \<open>Go's conversion \<^verbatim>\<open>int64(f)\<close> of a float discards the fraction (values within range).\<close>

definition int64_of_float :: "real \<Rightarrow> int" where
  "int64_of_float x = (if 0 \<le> x then \<lfloor>x\<rfloor> else \<lceil>x\<rceil>)"

definition runnerMap :: "RunnerCatalog list \<Rightarrow> (int \<rightharpoonup> RunnerCatalog)" where
  "runnerMap rs = fold (\<lambda>r m. m(SelectionID r \<mapsto> r)) rs Map.empty"

definition enrich_runner :: "(int \<rightharpoonup> RunnerCatalog) \<Rightarrow> json \<Rightarrow> json" where
  "enrich_runner rmap runnerInterface =
     (case runnerInterface of
        JObj runner \<Rightarrow>
          (case map_of runner ''id'' of
             Some (JNum x) \<Rightarrow>
               (case rmap (int64_of_float x) of
                  Some catalogueRunner \<Rightarrow>
                    (let r1 = (if map_of runner ''adjustmentFactor'' = None
                               then AList.update ''adjustmentFactor'' (JNum 0) runner else runner);
                         r2 = AList.update ''name'' (JStr (RunnerName catalogueRunner)) r1;
                         r3 = (if Handicap catalogueRunner \<noteq> 0
                               then AList.update ''handicap'' (JNum (Handicap catalogueRunner)) r2 else r2)
                     in JObj (AList.update ''sortPriority''
                                (JNum (of_int (SortPriority catalogueRunner))) r3))
                | None \<Rightarrow> JObj runner)
           | _ \<Rightarrow> JObj runner)
      | other \<Rightarrow> other)"

text \<open>Lines 490 to 503 (names from the catalogue) and 505 to 548 (the runners) of
  \<^verbatim>\<open>enrichMarketData\<close>, applied to the market definition.\<close>

definition add_catalogue_names :: "MarketCatalogue \<Rightarrow> (string \<times> json) list \<Rightarrow> (string \<times> json) list" where
  "add_catalogue_names catalogue marketDef =
     (let d1 = AList.update ''marketName'' (JStr (MarketName catalogue)) marketDef;
          d2 = (case Event catalogue of
                  None \<Rightarrow> d1
                | Some ev \<Rightarrow>
                    (let d = AList.update ''eventName'' (JStr (Event_Name ev)) d1
                     in if Event_Venue ev \<noteq> [] then AList.update ''venue'' (JStr (Event_Venue ev)) d
                        else d));
          d3 = (case EventType catalogue of
                  None \<Rightarrow> d2
                | Some et \<Rightarrow> AList.update ''eventTypeName'' (JStr (EventType_Name et)) d2)
      in case Competition catalogue of
           None \<Rightarrow> d3
         | Some cp \<Rightarrow> AList.update ''competitionName'' (JStr (Competition_Name cp)) d3)"

definition enrich_runners :: "MarketCatalogue \<Rightarrow> (string \<times> json) list \<Rightarrow> (string \<times> json) list" where
  "enrich_runners catalogue marketDef =
     (case map_of marketDef ''runners'' of
        Some (JArr runners) \<Rightarrow>
          if runners \<noteq> []
          then AList.update ''runners''
                 (JArr (map (enrich_runner (runnerMap (Runners catalogue))) runners)) marketDef
          else marketDef
      | _ \<Rightarrow> marketDef)"

definition enrich_marketDef :: "MarketCatalogue \<Rightarrow> (string \<times> json) list \<Rightarrow> (string \<times> json) list" where
  "enrich_marketDef catalogue marketDef =
     enrich_runners catalogue (add_catalogue_names catalogue marketDef)"

definition enrichMarketData :: "state \<Rightarrow> string \<Rightarrow> payload \<Rightarrow> err + payload" where
  "enrichMarketData st marketID pl =
     (case marketCatalogues st marketID of
        None \<Rightarrow> Inr pl
      | Some catalogue \<Rightarrow>
          (case pl of
             None \<Rightarrow> Inl (Msg ''failed to unmarshal payload'')
           | Some JNull \<Rightarrow> Inr pl
           | Some (JObj data) \<Rightarrow>
               (case map_of data ''mc'' of
                  Some (JArr (JObj market # others)) \<Rightarrow>
                    (case map_of market ''marketDefinition'' of
                       Some (JObj marketDef) \<Rightarrow>
                         Inr (Some (JObj (AList.update ''mc''
                           (JArr (JObj (AList.update ''marketDefinition''
                                          (JObj (enrich_marketDef catalogue marketDef)) market)
                                  # others)) data)))
                     | _ \<Rightarrow> Inr pl)
                | _ \<Rightarrow> Inr pl)
           | Some _ \<Rightarrow> Inl (Msg ''failed to unmarshal payload'')))"

text \<open>
  \<^verbatim>\<open>handleMarketSettlement\<close>. It receives the \<open>writers\<close> map only: the \<open>files\<close> map
  and the descriptor stay as they are. Every path returns \<^verbatim>\<open>nil\<close>.
\<close>

definition handleMarketSettlement :: "io \<Rightarrow> string \<Rightarrow> payload \<Rightarrow> state \<Rightarrow> err option \<times> state" where
  "handleMarketSettlement env marketID pl st =
     (let st1 = (case writers st marketID of
                   None \<Rightarrow> st
                 | Some w \<Rightarrow>
                     (let sa = log_event (EvFlush marketID) st;
                          sb = (if settle_flush_ok env then flush_writer w sa else sa)
                      in sb\<lparr>writers := (writers sb)(marketID := None)\<rparr>))
      in case ExtractEventInfo (parseTime st) pl of
           Inl e \<Rightarrow> (None, st1)
         | Inr eventInfo \<Rightarrow>
             (let inputFile = GetMarketFilePath (fileManager st) marketID;
                  compressedFile = GetCompressedFilePath (fileManager st) marketID;
                  compressed = CompressToBzip2 (compress env) inputFile compressedFile st1;
                  st2 = snd compressed
              in if fst compressed \<noteq> None then (None, st2)
                 else
                   (case storage st of
                      None \<Rightarrow> (None, st2)
                    | Some store \<Rightarrow>
                        (let s3Key = BuildS3Key store eventInfo (marketID @ ''.bz2'');
                             uploaded = Upload (upload_ok env) compressedFile s3Key st2;
                             st3 = snd uploaded
                         in if fst uploaded \<noteq> None then (None, st3)
                            else (None, CleanupFiles [inputFile, compressedFile] st3)))))"

text \<open>A key of a decoded \<^verbatim>\<open>map[string]interface{}\<close>: \<^verbatim>\<open>nil\<close> when absent.\<close>

definition field :: "(string \<times> json) list \<Rightarrow> string \<Rightarrow> json" where
  "field obj k = (case map_of obj k of None \<Rightarrow> JNull | Some v \<Rightarrow> v)"

definition singleMarketData :: "(string \<times> json) list \<Rightarrow> (string \<times> json) list \<Rightarrow> payload" where
  "singleMarketData data marketChange =
     Some (JObj [(''op'', field data ''op''), (''pt'', field data ''pt''),
                 (''clk'', field data ''clk''), (''mc'', JArr [JObj marketChange])])"

definition status_of :: "(string \<times> json) list \<Rightarrow> string" where
  "status_of marketChange =
     (case map_of marketChange ''marketDefinition'' of
        Some (JObj marketDef) \<Rightarrow>
          (case map_of marketDef ''status'' of Some (JStr status) \<Rightarrow> status | _ \<Rightarrow> [])
      | _ \<Rightarrow> [])"

text \<open>
  Lines 255 to 294 of \<^verbatim>\<open>readMessage\<close>: the single-market line is built, filtered,
  enriched (the filtered payload stands in when enrichment fails), written and flushed.
  The flag returned says that a \<^verbatim>\<open>continue\<close> was taken, which skips the rest of the
  loop body.
\<close>

definition write_line :: "io \<Rightarrow> string \<Rightarrow> (string \<times> json) list \<Rightarrow> (string \<times> json) list \<Rightarrow> state
    \<Rightarrow> state \<times> bool" where
  "write_line env marketID data marketChange st =
     (case writers st marketID of
        None \<Rightarrow> (st, False)
      | Some w \<Rightarrow>
          (case RemoveIDField (singleMarketData data marketChange) of
             Inl e \<Rightarrow> (st, True)
           | Inr filteredPayload \<Rightarrow>
               (let enrichedPayload =
                      (case enrichMarketData st marketID filteredPayload of
                         Inl e \<Rightarrow> filteredPayload
                       | Inr p \<Rightarrow> p);
                    st1 = log_event (EvWrite marketID enrichedPayload) st
                in if \<not> write_ok env then (st1, True)
                   else
                     (let w1 = w\<lparr>w_buf := w_buf w @ [enrichedPayload]\<rparr>;
                          st2 = st1\<lparr>writers := (writers st1)(marketID \<mapsto> w1)\<rparr>
                      in if \<not> flush_ok env then (st2, True)
                         else ((flush_writer w1 st2)
                                 \<lparr>writers := (writers st2)(marketID \<mapsto> w1\<lparr>w_buf := []\<rparr>)\<rparr>,
                               False)))))"

text \<open>The body of the loop over \<^verbatim>\<open>mc\<close> for one entry with a non-empty string id.\<close>

definition process_market :: "io \<Rightarrow> (string \<times> json) list \<Rightarrow> string \<Rightarrow> (string \<times> json) list \<Rightarrow> state \<Rightarrow> state" where
  "process_market env data marketID marketChange st =
     (let st1 = snd (fetchMarketCatalogue env marketID st);
          newStatus = status_of marketChange;
          oldStatus = (case marketStatuses st1 marketID of None \<Rightarrow> [] | Some s \<Rightarrow> s);
          marketJustSettled =
            (newStatus \<noteq> [] \<and> \<not> IsMarketSettled oldStatus \<and> IsMarketSettled newStatus);
          st2 = (if newStatus \<noteq> []
                 then st1\<lparr>marketStatuses := (marketStatuses st1)(marketID \<mapsto> newStatus)\<rparr>
                 else st1);
          st3 = (if writers st2 marketID = None
                 then snd (createWriterForMarket (create_ok env) marketID st2)
                 else st2);
          written = write_line env marketID data marketChange st3;
          st4 = fst written;
          skipped = snd written
      in if skipped then st4
         else if marketJustSettled then
           (let st5 = snd (handleMarketSettlement env marketID
                             (singleMarketData data marketChange)
                             (log_event (EvSettle marketID) st4))
            in st5\<lparr>marketCatalogues := (marketCatalogues st5)(marketID := None)\<rparr>)
         else st4)"

definition process_market_change :: "io \<Rightarrow> (string \<times> json) list \<Rightarrow> json \<Rightarrow> state \<Rightarrow> state" where
  "process_market_change env data marketChangeRaw st =
     (case marketChangeRaw of
        JObj marketChange \<Rightarrow>
          (case map_of marketChange ''id'' of
             Some (JStr marketID) \<Rightarrow>
               if marketID = [] then st
               else process_market env data marketID marketChange st
           | _ \<Rightarrow> st)
      | _ \<Rightarrow> st)"

text \<open>The loop over \<^verbatim>\<open>mc\<close>; \<open>envs k\<close> holds the outcomes for the entry at index \<open>k\<close>.\<close>

fun process_changes :: "(nat \<Rightarrow> io) \<Rightarrow> (string \<times> json) list \<Rightarrow> json list \<Rightarrow> state \<Rightarrow> state" where
  "process_changes envs data [] st = st"
| "process_changes envs data (marketChangeRaw # rest) st =
     process_changes (\<lambda>k. envs (Suc k)) data rest
       (process_market_change (envs 0) data marketChangeRaw st)"

text \<open>
  \<^verbatim>\<open>readMessage\<close> after a successful \<^verbatim>\<open>stream.ReadMessage\<close>: a frame is the payload read
  and the outcomes of the calls made for its entries. The parse of an \<^verbatim>\<open>mcm\<close> payload
  into a map cannot fail once \<^verbatim>\<open>ExtractOp\<close> has decoded it, so the function returns
  \<^verbatim>\<open>nil\<close> on every path and only the state is given.
\<close>

type_synonym frame = "payload \<times> (nat \<Rightarrow> io)"

definition store_clocks :: "payload \<Rightarrow> state \<Rightarrow> state" where
  "store_clocks pl st =
     (let (i, c) = ExtractAndStoreClock pl;
          st1 = (if i \<noteq> [] then st\<lparr>initialClk := i\<rparr> else st)
      in if c \<noteq> [] then st1\<lparr>clk := c\<rparr> else st1)"

definition readMessage :: "state \<Rightarrow> frame \<Rightarrow> state" where
  "readMessage st fr =
     (let pl = fst fr;
          st1 = store_clocks pl st
      in if ExtractOp pl = ''mcm'' then
           if ExtractChangeType pl = ''HEARTBEAT'' then st1
           else (case pl of
                   Some (JObj data) \<Rightarrow>
                     (case map_of data ''mc'' of
                        Some (JArr mc) \<Rightarrow> process_changes (snd fr) data mc st1
                      | _ \<Rightarrow> st1)
                 | _ \<Rightarrow> st1)
         else st1)"

text \<open>\<^verbatim>\<open>processStream\<close> over the frames read before the read error that ends it.\<close>

definition processStream :: "state \<Rightarrow> frame list \<Rightarrow> state" where
  "processStream st frames = foldl readMessage st frames"

text \<open>\<^verbatim>\<open>openWriters\<close>: a writer for each configured id, in order; the first failure
  ends the run with the error (the state is given as the failure left it).\<close>

fun openWriters :: "(string \<Rightarrow> bool) \<Rightarrow> string list \<Rightarrow> state \<Rightarrow> err option \<times> state" where
  "openWriters oks [] st = (None, st)"
| "openWriters oks (marketID # rest) st =
     (let created = createWriterForMarket (oks marketID) marketID st
      in case fst created of
           Some e \<Rightarrow> (Some (Wrapped ''open output file for market'' (Some e)), snd created)
         | None \<Rightarrow> openWriters oks rest (snd created))"

definition initial_state :: "FileManager \<Rightarrow> S3Storage option \<Rightarrow> (string \<Rightarrow> time option) \<Rightarrow> state" where
  "initial_state fm store parse =
     \<lparr>fileManager = fm, storage = store, parseTime = parse,
      initialClk = [], clk = [], marketCatalogues = Map.empty,
      writers = Map.empty, files = Map.empty, marketStatuses = Map.empty,
      fs = Map.empty, open_fds = [], next_fd = 3, s3 = Map.empty, events = []\<rparr>"

section \<open>Reconnecting\<close>

text \<open>
  \<^verbatim>\<open>isRetriableError\<close>: end of stream is retriable, a cancelled or expired context is
  not; for every other error both the loop over the known messages and the
  fall-through return \<^verbatim>\<open>true\<close>.
\<close>

definition isRetriableError :: "err \<Rightarrow> bool" where
  "isRetriableError e =
     (if errors_Is e EOF then True
      else if errors_Is e Canceled \<or> errors_Is e DeadlineExceeded then False
      else True)"

text \<open>
  What one pass of the loop in \<^verbatim>\<open>runWithReconnect\<close> meets: either
  \<^verbatim>\<open>establishConnection\<close> fails, or the connection is established and
  \<^verbatim>\<open>processStream\<close> later returns its error. The flag says whether the context is
  done before the timer of the backoff that follows fires. \<open>ctxErr\<close> is \<^verbatim>\<open>ctx.Err()\<close>.
\<close>

datatype attempt_outcome = ConnectFailed err | StreamFailed err

datatype conn_event = Connect nat | Backoff nat

function reconnect_loop ::
  "nat \<Rightarrow> nat \<Rightarrow> err \<Rightarrow> (nat \<Rightarrow> attempt_outcome \<times> bool) \<Rightarrow> nat \<Rightarrow> err option \<Rightarrow> conn_event list
     \<Rightarrow> err \<times> conn_event list" where
  "reconnect_loop maxRetries retryDelay ctxErr env attempt lastErr tr =
     (if attempt \<le> maxRetries then
        (case fst (env attempt) of
           ConnectFailed e \<Rightarrow>
             if attempt < maxRetries then
               (if snd (env attempt) then (ctxErr, tr @ [Connect attempt])
                else reconnect_loop maxRetries retryDelay ctxErr env (Suc attempt) (Some e)
                       (tr @ [Connect attempt, Backoff retryDelay]))
             else reconnect_loop maxRetries retryDelay ctxErr env (Suc attempt) (Some e)
                    (tr @ [Connect attempt])
         | StreamFailed e \<Rightarrow>
             if isRetriableError e \<and> attempt < maxRetries then
               (if snd (env attempt) then (ctxErr, tr @ [Connect attempt])
                else reconnect_loop maxRetries retryDelay ctxErr env (Suc attempt) (Some e)
                       (tr @ [Connect attempt, Backoff retryDelay]))
             else (e, tr @ [Connect attempt]))
      else (Wrapped ''max retries exceeded'' lastErr, tr))"
  by pat_completeness auto
termination
  by (relation "measure (\<lambda>(m, d, c, env, attempt, l, tr). Suc m - attempt)") auto

declare reconnect_loop.simps [simp del]

definition runWithReconnect ::
  "nat \<Rightarrow> nat \<Rightarrow> err \<Rightarrow> (nat \<Rightarrow> attempt_outcome \<times> bool) \<Rightarrow> err \<times> conn_event list" where
  "runWithReconnect maxRetries retryDelay ctxErr env =
     reconnect_loop maxRetries retryDelay ctxErr env 1 None []"

text \<open>
  \<^verbatim>\<open>Run\<close> loops for ever around \<^verbatim>\<open>runWithReconnect\<close>. One pass, numbered \<open>i\<close>, meets:
  whether the context is done when the pass begins, the attempts of its call of
  \<^verbatim>\<open>runWithReconnect\<close>, and whether the context is done before the timer of the wait
  that follows fires. The loop is run for a given number of passes; \<open>None\<close> says that
  it has not returned within them.
\<close>

record pass =
  done_before :: bool
  attempts :: "nat \<Rightarrow> attempt_outcome \<times> bool"
  done_in_wait :: bool

fun Run :: "nat \<Rightarrow> nat \<Rightarrow> nat \<Rightarrow> err \<Rightarrow> (nat \<Rightarrow> pass) \<Rightarrow> nat \<Rightarrow> err option" where
  "Run 0 maxRetries retryDelay ctxErr passes i = None"
| "Run (Suc fuel) maxRetries retryDelay ctxErr passes i =
     (if done_before (passes i) then Some ctxErr
      else
        (let e = fst (runWithReconnect maxRetries retryDelay ctxErr (attempts (passes i)))
         in if errors_Is e Canceled \<or> errors_Is e DeadlineExceeded then Some e
            else if done_in_wait (passes i) then Some ctxErr
            else Run fuel maxRetries retryDelay ctxErr passes (Suc i)))"

text \<open>The values \<^verbatim>\<open>NewMarketRecorder\<close> sets: five attempts, thirty seconds.\<close>

definition default_maxRetries :: nat where
  "default_maxRetries = 5"

definition default_retryDelay :: nat where
  "default_retryDelay = 30"

section \<open>Reference notions and sample inputs\<close>

text \<open>The clock tokens a sequence of frames carries, as \<^verbatim>\<open>ExtractAndStoreClock\<close> reads them.\<close>

definition observed_initialClk :: "frame list \<Rightarrow> string list" where
  "observed_initialClk frames = map (\<lambda>fr. fst (ExtractAndStoreClock (fst fr))) frames"

definition observed_clk :: "frame list \<Rightarrow> string list" where
  "observed_clk frames = map (\<lambda>fr. snd (ExtractAndStoreClock (fst fr))) frames"

fun first_nonempty :: "string list \<Rightarrow> string" where
  "first_nonempty [] = []"
| "first_nonempty (x # xs) = (if x \<noteq> [] then x else first_nonempty xs)"

fun last_nonempty :: "string \<Rightarrow> string list \<Rightarrow> string" where
  "last_nonempty cur [] = cur"
| "last_nonempty cur (x # xs) = last_nonempty (if x \<noteq> [] then x else cur) xs"

text \<open>A line of a market's log as the claim describes it: a JSON object with no top-level
  \<^verbatim>\<open>id\<close> whose \<^verbatim>\<open>mc\<close> array has exactly one element, an object whose \<^verbatim>\<open>id\<close> is the market's.\<close>

fun single_entry_for :: "string \<Rightarrow> json option \<Rightarrow> bool" where
  "single_entry_for m (Some (JArr [JObj entry])) = (map_of entry ''id'' = Some (JStr m))"
| "single_entry_for m _ = False"

fun is_single_market_line :: "string \<Rightarrow> payload \<Rightarrow> bool" where
  "is_single_market_line m (Some (JObj obj)) =
     (map_of obj ''id'' = None \<and> single_entry_for m (map_of obj ''mc''))"
| "is_single_market_line m _ = False"

text \<open>
  How the log of events grows: \<open>appends P st st'\<close> says that \<open>st'\<close> has the events of \<open>st\<close>
  followed by events that all satisfy \<open>P\<close>. An event is plain input and output when it
  is neither a write to a log nor the start of a settlement; a written line is good when
  it has the form above.
\<close>

definition appends :: "(event \<Rightarrow> bool) \<Rightarrow> state \<Rightarrow> state \<Rightarrow> bool" where
  "appends P st st' = (\<exists>evs. events st' = events st @ evs \<and> list_all P evs)"

fun plain_io :: "event \<Rightarrow> bool" where
  "plain_io (EvWrite m pl) = False"
| "plain_io (EvSettle m) = False"
| "plain_io e = True"

fun good_line :: "event \<Rightarrow> bool" where
  "good_line (EvWrite m pl) = is_single_market_line m pl"
| "good_line e = True"

text \<open>How often the settlement transaction was started for a market, the status stored
  for it (empty when none is), the statuses a frame carries for it, in the order of its
  \<^verbatim>\<open>mc\<close> entries, and the number of edges from a status that is not settled to one
  that is, along a sequence of statuses that follows \<open>old\<close>.\<close>

definition settlements :: "string \<Rightarrow> state \<Rightarrow> nat" where
  "settlements m st = length (filter (\<lambda>e. e = EvSettle m) (events st))"

definition stored_status :: "string \<Rightarrow> state \<Rightarrow> string" where
  "stored_status m st = (case marketStatuses st m of None \<Rightarrow> [] | Some s \<Rightarrow> s)"

definition entry_status :: "string \<Rightarrow> json \<Rightarrow> string list" where
  "entry_status m j =
     (case j of
        JObj marketChange \<Rightarrow>
          (case map_of marketChange ''id'' of
             Some (JStr marketID) \<Rightarrow>
               if marketID \<noteq> [] \<and> marketID = m \<and> status_of marketChange \<noteq> []
               then [status_of marketChange] else []
           | _ \<Rightarrow> [])
      | _ \<Rightarrow> [])"

definition frame_statuses :: "string \<Rightarrow> frame \<Rightarrow> string list" where
  "frame_statuses m fr =
     (if ExtractOp (fst fr) = ''mcm'' \<and> ExtractChangeType (fst fr) \<noteq> ''HEARTBEAT'' then
        (case fst fr of
           Some (JObj data) \<Rightarrow>
             (case map_of data ''mc'' of
                Some (JArr mc) \<Rightarrow> concat (map (entry_status m) mc)
              | _ \<Rightarrow> [])
         | _ \<Rightarrow> [])
      else [])"

definition observed_statuses :: "string \<Rightarrow> frame list \<Rightarrow> string list" where
  "observed_statuses m frames = concat (map (frame_statuses m) frames)"

fun settled_edges :: "string \<Rightarrow> string list \<Rightarrow> nat" where
  "settled_edges old [] = 0"
| "settled_edges old (s # ss) =
     (if \<not> IsMarketSettled old \<and> IsMarketSettled s then 1 else 0) + settled_edges s ss"

text \<open>Reading a payload the way the claim about enrichment speaks of it: the market
  definition of the first \<^verbatim>\<open>mc\<close> entry, and the runners of a market definition.\<close>

fun object_of :: "json option \<Rightarrow> (string \<times> json) list option" where
  "object_of (Some (JObj obj)) = Some obj"
| "object_of other = None"

fun first_object_of :: "json option \<Rightarrow> (string \<times> json) list option" where
  "first_object_of (Some (JArr (JObj entry # others))) = Some entry"
| "first_object_of other = None"

definition marketDefinition_of :: "payload \<Rightarrow> (string \<times> json) list option" where
  "marketDefinition_of pl =
     (case object_of pl of
        None \<Rightarrow> None
      | Some data \<Rightarrow>
          (case first_object_of (map_of data ''mc'') of
             None \<Rightarrow> None
           | Some market \<Rightarrow> object_of (map_of market ''marketDefinition'')))"

definition runners_of :: "(string \<times> json) list \<Rightarrow> json list" where
  "runners_of marketDef =
     (case map_of marketDef ''runners'' of Some (JArr runners) \<Rightarrow> runners | _ \<Rightarrow> [])"

text \<open>Outcomes under which every call succeeds and no catalogue is returned, a parser
  that knows the one date of the worked examples, and a start state.\<close>

definition io_ok :: io where
  "io_ok = \<lparr>fetch = None, create_ok = True, write_ok = True, flush_ok = True,
            settle_flush_ok = True, compress = CompressDone, upload_ok = True\<rparr>"

definition envs_ok :: "nat \<Rightarrow> io" where
  "envs_ok k = io_ok"

definition parse_sample :: "string \<Rightarrow> time option" where
  "parse_sample s =
     (if s = ''2025-09-26T00:40:00.000Z''
      then Some \<lparr>year = 2025, month = September, day = 26\<rparr> else None)"

definition start_state :: state where
  "start_state = initial_state (NewFileManager ''out'') None parse_sample"

definition clock_frame :: "string \<Rightarrow> string \<Rightarrow> frame" where
  "clock_frame i c = (Some (JObj [(''initialClk'', JStr i), (''clk'', JStr c)]), envs_ok)"

text \<open>A frame with one market change that carries a status, an event id and the open
  date; a recorder with an object store; outcomes under which only the upload fails.\<close>

definition status_frame :: "string \<Rightarrow> string \<Rightarrow> string \<Rightarrow> (nat \<Rightarrow> io) \<Rightarrow> frame" where
  "status_frame c m status envs =
     (Some (JObj [(''op'', JStr ''mcm''), (''clk'', JStr c),
        (''mc'', JArr [JObj [(''id'', JStr m),
           (''marketDefinition'', JObj [(''status'', JStr status), (''eventId'', JStr ''E''),
              (''openDate'', JStr ''2025-09-26T00:40:00.000Z'')])]])]), envs)"

definition archive_state :: state where
  "archive_state =
     initial_state (NewFileManager ''out'') (Some \<lparr>bucket = ''b'', basePath = []\<rparr>) parse_sample"

definition envs_upload_fails :: "nat \<Rightarrow> io" where
  "envs_upload_fails k = io_ok\<lparr>upload_ok := False\<rparr>"

text \<open>The state after a market opened and closed while the upload failed.\<close>

definition retained_state :: state where
  "retained_state =
     processStream archive_state
       [status_frame ''1000'' ''1.T'' ''OPEN'' envs_ok,
        status_frame ''1002'' ''1.T'' ''CLOSED'' envs_upload_fails]"

text \<open>The state while a market is being recorded, with and without an object store, the
  payload that closes it, and the state after it closed with every call succeeding.\<close>

definition recording_state :: state where
  "recording_state =
     processStream archive_state [status_frame ''1000'' ''1.T'' ''OPEN'' envs_ok]"

definition local_recording_state :: state where
  "local_recording_state =
     processStream start_state [status_frame ''1000'' ''1.T'' ''OPEN'' envs_ok]"

definition closing_payload :: payload where
  "closing_payload = fst (status_frame ''1002'' ''1.T'' ''CLOSED'' envs_ok)"

definition closed_state :: state where
  "closed_state =
     processStream archive_state
       [status_frame ''1000'' ''1.T'' ''OPEN'' envs_ok,
        status_frame ''1002'' ''1.T'' ''CLOSED'' envs_ok]"

text \<open>A frame that carries the server's correlation id and changes for two markets.\<close>

definition two_market_frame :: frame where
  "two_market_frame =
     (Some (JObj [(''op'', JStr ''mcm''), (''id'', JNum 3), (''clk'', JStr ''7''),
        (''mc'', JArr [JObj [(''id'', JStr ''1.A'')], JObj [(''id'', JStr ''1.B'')]])]), envs_ok)"

definition line_for :: "string \<Rightarrow> payload" where
  "line_for m =
     Some (JObj [(''op'', JStr ''mcm''), (''pt'', JNull), (''clk'', JStr ''7''),
                 (''mc'', JArr [JObj [(''id'', JStr m)]])])"

text \<open>A market that closes, reopens and closes again; and one that closes and stays closed.\<close>

definition reopening_frames :: "frame list" where
  "reopening_frames =
     [status_frame ''1000'' ''1.T'' ''OPEN'' envs_ok,
      status_frame ''1001'' ''1.T'' ''CLOSED'' envs_ok,
      status_frame ''1002'' ''1.T'' ''OPEN'' envs_ok,
      status_frame ''1003'' ''1.T'' ''CLOSED'' envs_ok]"

definition closing_frames :: "frame list" where
  "closing_frames =
     [status_frame ''1000'' ''1.T'' ''OPEN'' envs_ok,
      status_frame ''1001'' ''1.T'' ''CLOSED'' envs_ok,
      status_frame ''1002'' ''1.T'' ''CLOSED'' envs_ok]"

text \<open>A cached catalogue with an event, a venue and one runner, and a payload whose
  market definition lists that runner.\<close>

definition nadia_catalogue :: MarketCatalogue where
  "nadia_catalogue =
     \<lparr>MarketName = ''Win'',
      Runners = [\<lparr>SelectionID = 1, RunnerName = ''Fantastic Nadia'', Handicap = 0,
                  SortPriority = 1\<rparr>],
      EventType = None, Competition = None,
      Event = Some \<lparr>Event_Name = ''Healesville R1'', Event_Venue = ''Healesville''\<rparr>\<rparr>"

definition nadia_state :: state where
  "nadia_state = local_recording_state\<lparr>marketCatalogues := [''1.T'' \<mapsto> nadia_catalogue]\<rparr>"

definition nadia_marketDef :: "(string \<times> json) list" where
  "nadia_marketDef =
     [(''status'', JStr ''OPEN''),
      (''runners'', JArr [JObj [(''id'', JNum 1), (''status'', JStr ''ACTIVE'')]])]"

definition nadia_payload :: payload where
  "nadia_payload =
     Some (JObj [(''op'', JStr ''mcm''),
        (''mc'', JArr [JObj [(''id'', JStr ''1.T''), (''marketDefinition'', JObj nadia_marketDef)]])])"

text \<open>The connection attempts numbered \<open>a\<close> to \<open>k\<close> with one backoff of \<open>d\<close> seconds
  between consecutive attempts and none after the last; three environments: every
  attempt refused; four streams that end, then one refusal; one stream that ends with a
  cancelled context.\<close>

definition attempts_from :: "nat \<Rightarrow> nat \<Rightarrow> nat \<Rightarrow> conn_event list" where
  "attempts_from d a k = concat (map (\<lambda>i. [Connect i, Backoff d]) [a..<k]) @ [Connect k]"

text \<open>An attempt is retried when the connection could not be established or the stream
  ended with a retriable error. \<open>final_attempt\<close> says how the run ends at attempt \<open>k\<close>
  with the error \<open>r\<close>: the context is done during the backoff after a retried attempt;
  or the stream's error is returned, at the last attempt or when it is not retriable;
  or the last attempt could not connect and its error is returned wrapped.\<close>

fun retried :: "attempt_outcome \<Rightarrow> bool" where
  "retried (ConnectFailed e) = True"
| "retried (StreamFailed e) = isRetriableError e"

definition final_attempt ::
  "nat \<Rightarrow> err \<Rightarrow> (nat \<Rightarrow> attempt_outcome \<times> bool) \<Rightarrow> nat \<Rightarrow> err \<Rightarrow> bool" where
  "final_attempt maxRetries ctxErr env k r =
     ((k < maxRetries \<and> retried (fst (env k)) \<and> snd (env k) \<and> r = ctxErr)
      \<or> (case fst (env k) of
            ConnectFailed e \<Rightarrow>
              k = maxRetries \<and> r = Wrapped ''max retries exceeded'' (Some e)
          | StreamFailed e \<Rightarrow>
              (k = maxRetries \<or> \<not> isRetriableError e) \<and> r = e))"

definition refusing_env :: "nat \<Rightarrow> attempt_outcome \<times> bool" where
  "refusing_env i = (ConnectFailed (Msg ''dial failed''), False)"

definition reset_env :: "nat \<Rightarrow> attempt_outcome \<times> bool" where
  "reset_env i =
     (if i < 5 then (StreamFailed EOF, False) else (ConnectFailed (Msg ''dial failed''), False))"

text \<open>An element of a path that \<^verbatim>\<open>Clean\<close> keeps as it is, and a settlement payload with
  an event id and no open date.\<close>

definition plain_elem :: "string \<Rightarrow> bool" where
  "plain_elem e = (e \<noteq> [] \<and> CHR ''/'' \<notin> set e \<and> e \<noteq> ''.'' \<and> e \<noteq> ''..'')"

definition undated_payload :: payload where
  "undated_payload =
     Some (JObj [(''op'', JStr ''mcm''), (''clk'', JStr ''1002''),
        (''mc'', JArr [JObj [(''id'', JStr ''1.T''),
           (''marketDefinition'', JObj [(''status'', JStr ''CLOSED''),
              (''eventId'', JStr ''12345'')])]])])"

text \<open>Passes in which the context is never done and every attempt is refused.\<close>

definition refusing_pass :: "nat \<Rightarrow> pass" where
  "refusing_pass i = \<lparr>done_before = False, attempts = refusing_env, done_in_wait = False\<rparr>"

definition cancelled_pass :: "nat \<Rightarrow> pass" where
  "cancelled_pass i = \<lparr>done_before = (1 \<le> i), attempts = refusing_env, done_in_wait = False\<rparr>"

text \<open>The market change that closes the market of the examples, and a heartbeat frame.\<close>

definition closing_change :: "(string \<times> json) list" where
  "closing_change =
     [(''id'', JStr ''1.T''),
      (''marketDefinition'', JObj [(''status'', JStr ''CLOSED''), (''eventId'', JStr ''E''),
         (''openDate'', JStr ''2025-09-26T00:40:00.000Z'')])]"

definition heartbeat_frame :: frame where
  "heartbeat_frame =
     (Some (JObj [(''op'', JStr ''mcm''), (''ct'', JStr ''HEARTBEAT''), (''clk'', JStr ''9'')]),
      envs_ok)"

section \<open>What each operation leaves unchanged\<close>

lemma log_event_fields [simp]:
  "fileManager (log_event e st) = fileManager st"
  "storage (log_event e st) = storage st"
  "parseTime (log_event e st) = parseTime st"
  "initialClk (log_event e st) = initialClk st"
  "clk (log_event e st) = clk st"
  "marketCatalogues (log_event e st) = marketCatalogues st"
  "writers (log_event e st) = writers st"
  "files (log_event e st) = files st"
  "marketStatuses (log_event e st) = marketStatuses st"
  "fs (log_event e st) = fs st"
  "open_fds (log_event e st) = open_fds st"
  "next_fd (log_event e st) = next_fd st"
  "s3 (log_event e st) = s3 st"
  "events (log_event e st) = events st @ [e]"
  by (simp_all add: log_event_def)

lemma flush_writer_fields [simp]:
  "fileManager (flush_writer w st) = fileManager st"
  "storage (flush_writer w st) = storage st"
  "parseTime (flush_writer w st) = parseTime st"
  "initialClk (flush_writer w st) = initialClk st"
  "clk (flush_writer w st) = clk st"
  "marketCatalogues (flush_writer w st) = marketCatalogues st"
  "writers (flush_writer w st) = writers st"
  "files (flush_writer w st) = files st"
  "marketStatuses (flush_writer w st) = marketStatuses st"
  "open_fds (flush_writer w st) = open_fds st"
  "next_fd (flush_writer w st) = next_fd st"
  "s3 (flush_writer w st) = s3 st"
  "events (flush_writer w st) = events st"
  by (simp_all add: flush_writer_def split: option.splits)

lemma CleanupFiles_fields [simp]:
  "fileManager (CleanupFiles ps st) = fileManager st"
  "storage (CleanupFiles ps st) = storage st"
  "parseTime (CleanupFiles ps st) = parseTime st"
  "initialClk (CleanupFiles ps st) = initialClk st"
  "clk (CleanupFiles ps st) = clk st"
  "marketCatalogues (CleanupFiles ps st) = marketCatalogues st"
  "writers (CleanupFiles ps st) = writers st"
  "files (CleanupFiles ps st) = files st"
  "marketStatuses (CleanupFiles ps st) = marketStatuses st"
  "open_fds (CleanupFiles ps st) = open_fds st"
  "next_fd (CleanupFiles ps st) = next_fd st"
  "s3 (CleanupFiles ps st) = s3 st"
  "events (CleanupFiles ps st) = events st @ map EvRemove ps"
  by (induction ps arbitrary: st; simp)+

lemma CompressToBzip2_fields [simp]:
  "fileManager (snd (CompressToBzip2 oc i out st)) = fileManager st"
  "storage (snd (CompressToBzip2 oc i out st)) = storage st"
  "parseTime (snd (CompressToBzip2 oc i out st)) = parseTime st"
  "initialClk (snd (CompressToBzip2 oc i out st)) = initialClk st"
  "clk (snd (CompressToBzip2 oc i out st)) = clk st"
  "marketCatalogues (snd (CompressToBzip2 oc i out st)) = marketCatalogues st"
  "writers (snd (CompressToBzip2 oc i out st)) = writers st"
  "files (snd (CompressToBzip2 oc i out st)) = files st"
  "marketStatuses (snd (CompressToBzip2 oc i out st)) = marketStatuses st"
  "open_fds (snd (CompressToBzip2 oc i out st)) = open_fds st"
  "next_fd (snd (CompressToBzip2 oc i out st)) = next_fd st"
  "s3 (snd (CompressToBzip2 oc i out st)) = s3 st"
  "events (snd (CompressToBzip2 oc i out st)) = events st @ [EvCompress i out]"
  by (simp_all add: CompressToBzip2_def Let_def split: option.splits compress_outcome.splits)

lemma Upload_fields [simp]:
  "fileManager (snd (Upload ok p k st)) = fileManager st"
  "storage (snd (Upload ok p k st)) = storage st"
  "parseTime (snd (Upload ok p k st)) = parseTime st"
  "initialClk (snd (Upload ok p k st)) = initialClk st"
  "clk (snd (Upload ok p k st)) = clk st"
  "marketCatalogues (snd (Upload ok p k st)) = marketCatalogues st"
  "writers (snd (Upload ok p k st)) = writers st"
  "files (snd (Upload ok p k st)) = files st"
  "marketStatuses (snd (Upload ok p k st)) = marketStatuses st"
  "fs (snd (Upload ok p k st)) = fs st"
  "open_fds (snd (Upload ok p k st)) = open_fds st"
  "next_fd (snd (Upload ok p k st)) = next_fd st"
  by (simp_all add: Upload_def Let_def split: option.splits)

lemma Upload_events:
  "events (snd (Upload ok p k st)) = events st @ (if fs st p = None then [] else [EvUpload p k])"
  by (simp add: Upload_def Let_def split: option.splits)

lemma handleMarketSettlement_fields [simp]:
  "fileManager (snd (handleMarketSettlement env m pl st)) = fileManager st"
  "storage (snd (handleMarketSettlement env m pl st)) = storage st"
  "parseTime (snd (handleMarketSettlement env m pl st)) = parseTime st"
  "initialClk (snd (handleMarketSettlement env m pl st)) = initialClk st"
  "clk (snd (handleMarketSettlement env m pl st)) = clk st"
  "marketCatalogues (snd (handleMarketSettlement env m pl st)) = marketCatalogues st"
  "files (snd (handleMarketSettlement env m pl st)) = files st"
  "marketStatuses (snd (handleMarketSettlement env m pl st)) = marketStatuses st"
  "open_fds (snd (handleMarketSettlement env m pl st)) = open_fds st"
  "next_fd (snd (handleMarketSettlement env m pl st)) = next_fd st"
  by (simp_all add: handleMarketSettlement_def Let_def split: option.splits sum.splits)

lemma handleMarketSettlement_writers [simp]:
  "writers (snd (handleMarketSettlement env m pl st)) = (writers st)(m := None)"
  by (auto simp add: handleMarketSettlement_def Let_def split: option.splits sum.splits)


lemma CreateMarketWriter_fields [simp]:
  "fileManager (snd (CreateMarketWriter ok m st)) = fileManager st"
  "storage (snd (CreateMarketWriter ok m st)) = storage st"
  "parseTime (snd (CreateMarketWriter ok m st)) = parseTime st"
  "initialClk (snd (CreateMarketWriter ok m st)) = initialClk st"
  "clk (snd (CreateMarketWriter ok m st)) = clk st"
  "marketCatalogues (snd (CreateMarketWriter ok m st)) = marketCatalogues st"
  "writers (snd (CreateMarketWriter ok m st)) = writers st"
  "files (snd (CreateMarketWriter ok m st)) = files st"
  "marketStatuses (snd (CreateMarketWriter ok m st)) = marketStatuses st"
  "s3 (snd (CreateMarketWriter ok m st)) = s3 st"
  "events (snd (CreateMarketWriter ok m st)) =
     events st @ [EvCreate m (Join [outputPath (fileManager st), m])]"
  by (simp_all add: CreateMarketWriter_def Let_def)

lemma createWriterForMarket_fields [simp]:
  "fileManager (snd (createWriterForMarket ok m st)) = fileManager st"
  "storage (snd (createWriterForMarket ok m st)) = storage st"
  "parseTime (snd (createWriterForMarket ok m st)) = parseTime st"
  "initialClk (snd (createWriterForMarket ok m st)) = initialClk st"
  "clk (snd (createWriterForMarket ok m st)) = clk st"
  "marketCatalogues (snd (createWriterForMarket ok m st)) = marketCatalogues st"
  "marketStatuses (snd (createWriterForMarket ok m st)) = marketStatuses st"
  "s3 (snd (createWriterForMarket ok m st)) = s3 st"
  "events (snd (createWriterForMarket ok m st)) =
     events st @ [EvCreate m (Join [outputPath (fileManager st), m])]"
  by (simp_all add: createWriterForMarket_def Let_def split: sum.splits)

lemma fetchMarketCatalogue_fields [simp]:
  "fileManager (snd (fetchMarketCatalogue env m st)) = fileManager st"
  "storage (snd (fetchMarketCatalogue env m st)) = storage st"
  "parseTime (snd (fetchMarketCatalogue env m st)) = parseTime st"
  "initialClk (snd (fetchMarketCatalogue env m st)) = initialClk st"
  "clk (snd (fetchMarketCatalogue env m st)) = clk st"
  "writers (snd (fetchMarketCatalogue env m st)) = writers st"
  "files (snd (fetchMarketCatalogue env m st)) = files st"
  "marketStatuses (snd (fetchMarketCatalogue env m st)) = marketStatuses st"
  "fs (snd (fetchMarketCatalogue env m st)) = fs st"
  "open_fds (snd (fetchMarketCatalogue env m st)) = open_fds st"
  "next_fd (snd (fetchMarketCatalogue env m st)) = next_fd st"
  "s3 (snd (fetchMarketCatalogue env m st)) = s3 st"
  "events (snd (fetchMarketCatalogue env m st)) =
     events st @ (if marketCatalogues st m = None then [EvFetch m] else [])"
  by (simp_all add: fetchMarketCatalogue_def Let_def split: option.splits)

lemma write_line_fields [simp]:
  "fileManager (fst (write_line env m data mc st)) = fileManager st"
  "storage (fst (write_line env m data mc st)) = storage st"
  "parseTime (fst (write_line env m data mc st)) = parseTime st"
  "initialClk (fst (write_line env m data mc st)) = initialClk st"
  "clk (fst (write_line env m data mc st)) = clk st"
  "marketCatalogues (fst (write_line env m data mc st)) = marketCatalogues st"
  "files (fst (write_line env m data mc st)) = files st"
  "marketStatuses (fst (write_line env m data mc st)) = marketStatuses st"
  "open_fds (fst (write_line env m data mc st)) = open_fds st"
  "next_fd (fst (write_line env m data mc st)) = next_fd st"
  "s3 (fst (write_line env m data mc st)) = s3 st"
  by (simp_all add: write_line_def Let_def split: option.splits sum.splits)

lemma process_market_clocks [simp]:
  "initialClk (process_market env data m mc st) = initialClk st"
  "clk (process_market env data m mc st) = clk st"
  "fileManager (process_market env data m mc st) = fileManager st"
  "storage (process_market env data m mc st) = storage st"
  "parseTime (process_market env data m mc st) = parseTime st"
  by (simp_all add: process_market_def Let_def)

lemma process_market_change_clocks [simp]:
  "initialClk (process_market_change env data j st) = initialClk st"
  "clk (process_market_change env data j st) = clk st"
  "fileManager (process_market_change env data j st) = fileManager st"
  "storage (process_market_change env data j st) = storage st"
  "parseTime (process_market_change env data j st) = parseTime st"
  by (simp_all add: process_market_change_def split: json.splits option.splits)

lemma process_changes_clocks [simp]:
  "initialClk (process_changes envs data js st) = initialClk st"
  "clk (process_changes envs data js st) = clk st"
  "fileManager (process_changes envs data js st) = fileManager st"
  "storage (process_changes envs data js st) = storage st"
  "parseTime (process_changes envs data js st) = parseTime st"
  by (induction js arbitrary: envs st; simp)+

section \<open>Clock capture\<close>

lemma store_clocks_initialClk:
  "initialClk (store_clocks pl st) =
     (if fst (ExtractAndStoreClock pl) \<noteq> [] then fst (ExtractAndStoreClock pl) else initialClk st)"
  by (simp add: store_clocks_def Let_def split: prod.splits)

lemma store_clocks_clk:
  "clk (store_clocks pl st) =
     (if snd (ExtractAndStoreClock pl) \<noteq> [] then snd (ExtractAndStoreClock pl) else clk st)"
  by (simp add: store_clocks_def Let_def split: prod.splits)

lemma readMessage_initialClk:
  "initialClk (readMessage st fr) =
     (if fst (ExtractAndStoreClock (fst fr)) \<noteq> [] then fst (ExtractAndStoreClock (fst fr))
      else initialClk st)"
  by (simp add: readMessage_def Let_def store_clocks_initialClk
           split: option.splits json.splits)

lemma readMessage_clk:
  "clk (readMessage st fr) =
     (if snd (ExtractAndStoreClock (fst fr)) \<noteq> [] then snd (ExtractAndStoreClock (fst fr))
      else clk st)"
  by (simp add: readMessage_def Let_def store_clocks_clk
           split: option.splits json.splits)

text \<open>
  Both tokens are overwritten by every non-empty observation: after any sequence of
  frames each holds the last non-empty value seen, or what it held before when there
  was none.
\<close>

theorem clocks_hold_last_nonempty:
  "initialClk (processStream st frames) = last_nonempty (initialClk st) (observed_initialClk frames)
   \<and> clk (processStream st frames) = last_nonempty (clk st) (observed_clk frames)"
proof (induction frames arbitrary: st)
  case Nil
  show ?case by (simp add: processStream_def observed_initialClk_def observed_clk_def)
next
  case (Cons fr frames)
  have step: "processStream st (fr # frames) = processStream (readMessage st fr) frames"
    by (simp add: processStream_def)
  show ?case
    unfolding step
    using Cons.IH [of "readMessage st fr"]
    by (simp add: observed_initialClk_def observed_clk_def readMessage_initialClk readMessage_clk)
qed

text \<open>
  C1. The claim asks that \<open>initialClk\<close> keep the first non-empty value observed. On two
  frames that carry the initial clocks \<open>A\<close> and then \<open>B\<close>, the first non-empty
  observation is \<open>A\<close>, and the recorder ends with \<open>B\<close>: \<^verbatim>\<open>readMessage\<close> assigns the field on
  every non-empty observation. The stored \<open>clk\<close> is the last one observed, as claimed.
\<close>

theorem initialClk_overwritten_by_later_frame:
  "first_nonempty (observed_initialClk [clock_frame ''A'' ''1'', clock_frame ''B'' ''2'']) = ''A''
   \<and> initialClk (processStream start_state [clock_frame ''A'' ''1'', clock_frame ''B'' ''2'']) = ''B''
   \<and> clk (processStream start_state [clock_frame ''A'' ''1'', clock_frame ''B'' ''2'']) = ''2''"
  by (simp add: processStream_def readMessage_def store_clocks_def observed_initialClk_def
        clock_frame_def ExtractAndStoreClock_def ExtractOp_def string_field_def
        start_state_def initial_state_def)

section \<open>Evaluating the worked examples\<close>

lemmas eval_defs = processStream_def readMessage_def store_clocks_def ExtractAndStoreClock_def
  ExtractOp_def ExtractChangeType_def string_field_def process_market_change_def process_market_def
  fetchMarketCatalogue_def status_of_def IsMarketSettled_def createWriterForMarket_def
  CreateMarketWriter_def write_line_def singleMarketData_def field_def RemoveIDField_def
  enrichMarketData_def handleMarketSettlement_def flush_writer_def ExtractEventInfo_def
  enrich_marketDef_def add_catalogue_names_def enrich_runners_def enrich_runner_def
  decode_mcm_def decode_mc_entry_def decode_marketDefinition_def time_field_def
  GetMarketFilePath_def GetCompressedFilePath_def CompressToBzip2_def Upload_def BuildS3Key_def
  log_event_def Let_def

lemmas sample_defs = status_frame_def archive_state_def start_state_def initial_state_def
  NewFileManager_def envs_ok_def envs_upload_fails_def io_ok_def parse_sample_def

lemma sample_paths:
  "Join [''out'', ''1.T''] = ''out/1.T''"
  "Join [''out'', ''1.T.bz2''] = ''out/1.T.bz2''"
  "Join [''raw_greyhounds_data'', ''PRO'', ''2025'', ''Sep'', ''26'', ''E'', ''1.T.bz2'']
     = ''raw_greyhounds_data/PRO/2025/Sep/26/E/1.T.bz2''"
  by (simp_all add: Join_def Clean_def Let_def)

lemma sample_numbers: "Itoa 2025 = ''2025''" "Itoa 26 = ''26''"
  by (simp_all add: Itoa_def digits.simps)

section \<open>Gzip detection\<close>

lemma isGzip_iff: "isGzip data \<longleftrightarrow> 2 < length data \<and> take 2 data = [0x1f, 0x8b]"
proof (cases data)
  case Nil
  then show ?thesis by (simp add: isGzip_def)
next
  case (Cons a as)
  then show ?thesis by (cases as) (auto simp: isGzip_def)
qed

text \<open>
  C8, as amended. \<^verbatim>\<open>ReadMessage\<close> passes over lines that are empty once trimmed. The
  first other line is gzip-decoded exactly when, trimmed, it is longer than two bytes and
  begins with \<^verbatim>\<open>1f 8b\<close>; any other frame is returned trimmed and otherwise as it is.
\<close>

theorem ReadMessage_gzip_detection:
  "ReadMessage trim gunzip e lines =
     (case dropWhile (\<lambda>l. trim l = []) lines of
        [] \<Rightarrow> (Inl e, [])
      | line # rest \<Rightarrow>
          if 2 < length (trim line) \<and> take 2 (trim line) = [0x1f, 0x8b]
          then (case gunzip (trim line) of
                  Inl er \<Rightarrow> (Inl er, rest)
                | Inr decoded \<Rightarrow> (Inr (trim decoded), rest))
          else (Inr (trim line), rest))"
  by (induction lines) (simp_all add: Let_def isGzip_iff)

theorem ReadMessage_gzip_detection_witness:
  "ReadMessage trim_ascii gunzip_reject EOF [[0x0a], [0x20, 0x7b, 0x7d, 0x0a]] = (Inr [0x7b, 0x7d], [])
   \<and> ReadMessage trim_ascii gunzip_reject EOF [[0x1f, 0x8b, 0x08, 0x0a], [0x7b, 0x7d, 0x0a]]
       = (Inl (Msg ''create gzip reader: unexpected EOF''), [[0x7b, 0x7d, 0x0a]])"
proof -
  have a: "trim_ascii [0x20, 0x7b, 0x7d, 0x0a] = [0x7b, 0x7d]"
    by (simp add: trim_ascii_def is_space_def)
  have b: "trim_ascii [0x1f, 0x8b, 0x08, 0x0a] = [0x1f, 0x8b, 0x08]"
    by (simp add: trim_ascii_def is_space_def)
  have c: "trim_ascii [0x0a] = []"
    by (simp add: trim_ascii_def is_space_def)
  show ?thesis
    using ReadMessage_gzip_detection
            [of trim_ascii gunzip_reject EOF "[[0x0a], [0x20, 0x7b, 0x7d, 0x0a]]"]
          ReadMessage_gzip_detection
            [of trim_ascii gunzip_reject EOF "[[0x1f, 0x8b, 0x08, 0x0a], [0x7b, 0x7d, 0x0a]]"]
    by (simp add: a b c gunzip_reject_def)
qed

text \<open>
  The claim as stated fails on the frame that consists of the two magic bytes only: it
  begins with \<^verbatim>\<open>1f 8b\<close>, and it is returned as it is, with no decoding attempted
  (the sample decoder would have rejected it).
\<close>

theorem two_byte_magic_frame_not_decoded:
  "take 2 (trim_ascii [0x1f, 0x8b, 0x0a]) = [0x1f, 0x8b]
   \<and> ReadMessage trim_ascii gunzip_reject EOF [[0x1f, 0x8b, 0x0a]] = (Inr [0x1f, 0x8b], [])"
  by (simp add: trim_ascii_def is_space_def isGzip_def)

section \<open>Creating a market file\<close>

text \<open>
  C10. When \<^verbatim>\<open>CreateMarketWriter\<close> returns a writer, the file at the market's path is
  empty, whatever it held before, and the writer writes to that path with an empty
  buffer. Every writer is created through it, by \<^verbatim>\<open>createWriterForMarket\<close> (called from
  \<^verbatim>\<open>openWriters\<close> for the configured ids and from \<^verbatim>\<open>readMessage\<close> when the id has no
  entry in the writers map), which registers that writer for the id.
\<close>

theorem CreateMarketWriter_truncates:
  assumes "fst (CreateMarketWriter ok m st) = Inr w"
  shows "fs (snd (CreateMarketWriter ok m st)) (GetMarketFilePath (fileManager st) m) = Some []
     \<and> w_path w = GetMarketFilePath (fileManager st) m \<and> w_buf w = []
     \<and> fst (createWriterForMarket ok m st) = None
     \<and> fs (snd (createWriterForMarket ok m st)) (GetMarketFilePath (fileManager st) m) = Some []
     \<and> writers (snd (createWriterForMarket ok m st)) m = Some w"
  using assms
  by (auto simp: createWriterForMarket_def CreateMarketWriter_def GetMarketFilePath_def Let_def
           split: if_splits)

text \<open>
  The example: the market opens and closes, the upload fails, so the log of two lines
  stays on disk and the writer is gone. Creating the writer again empties the file; when
  the market reappears in the stream, the file holds the one new line.
\<close>

lemma retained_log:
  "map_option length (fs retained_state ''out/1.T'') = Some 2"
  "writers retained_state ''1.T'' = None"
  "fileManager retained_state = \<lparr>outputPath = ''out''\<rparr>"
  by (simp_all add: retained_state_def eval_defs sample_defs sample_paths sample_numbers)

lemma retained_recreate:
  "fst (CreateMarketWriter True ''1.T'' retained_state)
     = Inr \<lparr>w_fd = 4, w_path = ''out/1.T'', w_buf = []\<rparr>"
  by (simp add: CreateMarketWriter_def Let_def retained_log sample_paths)
     (simp add: retained_state_def eval_defs sample_defs sample_paths sample_numbers)

theorem CreateMarketWriter_truncates_witness:
  "fst (CreateMarketWriter True ''1.T'' retained_state)
     = Inr \<lparr>w_fd = 4, w_path = ''out/1.T'', w_buf = []\<rparr>
   \<and> map_option length (fs retained_state ''out/1.T'') = Some 2
   \<and> fs (snd (CreateMarketWriter True ''1.T'' retained_state)) ''out/1.T'' = Some []
   \<and> map_option length
        (fs (readMessage retained_state (status_frame ''1003'' ''1.T'' ''CLOSED'' envs_ok)) ''out/1.T'')
       = Some 1"
proof -
  have after: "map_option length
        (fs (readMessage retained_state (status_frame ''1003'' ''1.T'' ''CLOSED'' envs_ok)) ''out/1.T'')
       = Some 1"
    by (simp add: retained_state_def eval_defs sample_defs sample_paths sample_numbers)
  show ?thesis
    using CreateMarketWriter_truncates [OF retained_recreate] after
    by (simp add: retained_log GetMarketFilePath_def sample_paths retained_recreate)
qed

section \<open>The settlement transaction\<close>

text \<open>
  C6. Once the event information is extracted and the log is compressed,
  \<^verbatim>\<open>handleMarketSettlement\<close> removes both the log and its compressed copy when an object
  store is configured and the upload succeeds; when the upload fails, or no store is
  configured, both files stay. In every case it returns \<^verbatim>\<open>nil\<close>, so the loop goes on.
\<close>

theorem settlement_cleanup:
  assumes info: "ExtractEventInfo (parseTime st) pl = Inr eventInfo"
    and present: "fs st (GetMarketFilePath (fileManager st) m) \<noteq> None"
    and compressed: "compress env = CompressDone"
  shows "fst (handleMarketSettlement env m pl st) = None
    \<and> (storage st \<noteq> None \<and> upload_ok env \<longrightarrow>
          fs (snd (handleMarketSettlement env m pl st)) (GetMarketFilePath (fileManager st) m) = None
        \<and> fs (snd (handleMarketSettlement env m pl st)) (GetCompressedFilePath (fileManager st) m) = None)
    \<and> (storage st = None \<or> \<not> upload_ok env \<longrightarrow>
          fs (snd (handleMarketSettlement env m pl st)) (GetMarketFilePath (fileManager st) m) \<noteq> None
        \<and> fs (snd (handleMarketSettlement env m pl st)) (GetCompressedFilePath (fileManager st) m) \<noteq> None)"
  using assms
  by (auto simp: handleMarketSettlement_def CompressToBzip2_def Upload_def flush_writer_def Let_def
           split: option.splits)

lemma closing_info:
  "ExtractEventInfo parse_sample closing_payload =
     Inr \<lparr>EventID = ''E'', Date = \<lparr>year = 2025, month = September, day = 26\<rparr>,
          Year = ''2025'', Month = ''Sep'', Day = ''26''\<rparr>"
  by (simp add: closing_payload_def eval_defs sample_defs sample_numbers)

lemma recording_facts:
  "parseTime recording_state = parse_sample"
  "fileManager recording_state = \<lparr>outputPath = ''out''\<rparr>"
  "storage recording_state = Some \<lparr>bucket = ''b'', basePath = []\<rparr>"
  "fs recording_state ''out/1.T'' \<noteq> None"
  by (simp_all add: recording_state_def eval_defs sample_defs sample_paths)

lemma local_recording_facts:
  "parseTime local_recording_state = parse_sample"
  "fileManager local_recording_state = \<lparr>outputPath = ''out''\<rparr>"
  "storage local_recording_state = None"
  "fs local_recording_state ''out/1.T'' \<noteq> None"
  by (simp_all add: local_recording_state_def eval_defs sample_defs sample_paths)

theorem settlement_cleanup_witness:
  "fs (snd (handleMarketSettlement io_ok ''1.T'' closing_payload recording_state)) ''out/1.T'' = None
   \<and> fs (snd (handleMarketSettlement io_ok ''1.T'' closing_payload recording_state)) ''out/1.T.bz2'' = None
   \<and> fs (snd (handleMarketSettlement (io_ok\<lparr>upload_ok := False\<rparr>) ''1.T'' closing_payload
               recording_state)) ''out/1.T'' \<noteq> None
   \<and> fs (snd (handleMarketSettlement (io_ok\<lparr>upload_ok := False\<rparr>) ''1.T'' closing_payload
               recording_state)) ''out/1.T.bz2'' \<noteq> None
   \<and> fs (snd (handleMarketSettlement io_ok ''1.T'' closing_payload local_recording_state)) ''out/1.T''
       \<noteq> None
   \<and> fs (snd (handleMarketSettlement io_ok ''1.T'' closing_payload local_recording_state))
        ''out/1.T.bz2'' \<noteq> None
   \<and> fst (handleMarketSettlement (io_ok\<lparr>upload_ok := False\<rparr>) ''1.T'' closing_payload
            recording_state) = None"
proof -
  have i1: "ExtractEventInfo (parseTime recording_state) closing_payload =
     Inr \<lparr>EventID = ''E'', Date = \<lparr>year = 2025, month = September, day = 26\<rparr>,
          Year = ''2025'', Month = ''Sep'', Day = ''26''\<rparr>"
    by (simp add: recording_facts closing_info)
  have i2: "ExtractEventInfo (parseTime local_recording_state) closing_payload =
     Inr \<lparr>EventID = ''E'', Date = \<lparr>year = 2025, month = September, day = 26\<rparr>,
          Year = ''2025'', Month = ''Sep'', Day = ''26''\<rparr>"
    by (simp add: local_recording_facts closing_info)
  have p1: "fs recording_state (GetMarketFilePath (fileManager recording_state) ''1.T'') \<noteq> None"
    by (simp add: recording_facts GetMarketFilePath_def sample_paths)
  have p2: "fs local_recording_state (GetMarketFilePath (fileManager local_recording_state) ''1.T'')
              \<noteq> None"
    by (simp add: local_recording_facts GetMarketFilePath_def sample_paths)
  have c1: "compress io_ok = CompressDone" "compress (io_ok\<lparr>upload_ok := False\<rparr>) = CompressDone"
    by (simp_all add: io_ok_def)
  show ?thesis
    using settlement_cleanup [OF i1 p1 c1(1)] settlement_cleanup [OF i1 p1 c1(2)]
      settlement_cleanup [OF i2 p2 c1(1)]
    by (simp add: recording_facts local_recording_facts GetMarketFilePath_def
          GetCompressedFilePath_def sample_paths io_ok_def)
qed

text \<open>
  C5. When the transaction begins, the writer is flushed and its entry leaves the
  \<open>writers\<close> map before anything is compressed or uploaded. The file itself is not
  closed: after the market of the example has closed, its log was flushed, compressed,
  uploaded and removed in that order, and its descriptor is still open and still
  registered in \<open>files\<close>.
\<close>

theorem settlement_leaves_descriptor_open:
  "writers closed_state ''1.T'' = None
   \<and> files closed_state ''1.T'' = Some 3
   \<and> open_fds closed_state = [3]
   \<and> fs closed_state ''out/1.T'' = None
   \<and> drop 5 (events closed_state) =
       [EvSettle ''1.T'', EvFlush ''1.T'', EvCompress ''out/1.T'' ''out/1.T.bz2'',
        EvUpload ''out/1.T.bz2'' ''raw_greyhounds_data/PRO/2025/Sep/26/E/1.T.bz2'',
        EvRemove ''out/1.T'', EvRemove ''out/1.T.bz2'']"
  by (simp add: closed_state_def eval_defs sample_defs sample_paths sample_numbers)

section \<open>The lines of a market's log\<close>

lemma map_of_update_other: "k \<noteq> k' \<Longrightarrow> map_of (AList.update k v al) k' = map_of al k'"
  by (simp add: update_conv')

lemma map_of_update_same: "map_of (AList.update k v al) k = Some v"
  by (simp add: update_conv')

lemma map_of_delete_same: "map_of (AList.delete k al) k = None"
  by (simp add: delete_conv')

lemma map_of_delete_other: "k \<noteq> k' \<Longrightarrow> map_of (AList.delete k al) k' = map_of al k'"
  by (simp add: delete_conv')

lemma filtered_single_line:
  assumes "map_of marketChange ''id'' = Some (JStr m)"
  shows "\<exists>pl. RemoveIDField (singleMarketData data marketChange) = Inr pl \<and> is_single_market_line m pl"
  using assms
  by (simp add: RemoveIDField_def singleMarketData_def)

lemma single_market_lineE:
  assumes "is_single_market_line m pl"
  obtains obj entry where "pl = Some (JObj obj)" and "map_of obj ''id'' = None"
    and "map_of obj ''mc'' = Some (JArr [JObj entry])" and "map_of entry ''id'' = Some (JStr m)"
proof -
  from assms obtain obj where pl: "pl = Some (JObj obj)" and noid: "map_of obj ''id'' = None"
    and se: "single_entry_for m (map_of obj ''mc'')"
    by (auto elim: is_single_market_line.elims(2))
  from se obtain entry where "map_of obj ''mc'' = Some (JArr [JObj entry])"
    and "map_of entry ''id'' = Some (JStr m)"
    by (auto elim: single_entry_for.elims(2))
  with pl noid show thesis using that by blast
qed

lemma enrich_keeps_single_line:
  assumes "is_single_market_line m pl" and "enrichMarketData st m' pl = Inr pl'"
  shows "is_single_market_line m pl'"
proof (cases "marketCatalogues st m'")
  case None
  with assms show ?thesis by (simp add: enrichMarketData_def)
next
  case (Some c)
  from assms(1) obtain obj entry where pl: "pl = Some (JObj obj)"
    and noid: "map_of obj ''id'' = None"
    and mc: "map_of obj ''mc'' = Some (JArr [JObj entry])"
    and eid: "map_of entry ''id'' = Some (JStr m)"
    by (rule single_market_lineE)
  show ?thesis
  proof (cases "map_of entry ''marketDefinition''")
    case None
    with assms Some pl mc show ?thesis by (auto simp: enrichMarketData_def)
  next
    case (Some d)
    then show ?thesis
      using assms \<open>marketCatalogues st m' = Some c\<close> pl mc noid eid
      by (cases d) (auto simp: enrichMarketData_def map_of_update_other map_of_update_same)
  qed
qed

lemma write_line_events:
  assumes "map_of marketChange ''id'' = Some (JStr m)"
  shows "\<exists>evs. events (fst (write_line env m data marketChange st)) = events st @ evs
           \<and> (\<forall>e \<in> set evs. \<exists>pl. e = EvWrite m pl \<and> is_single_market_line m pl)"
proof (cases "writers st m")
  case None
  then show ?thesis by (simp add: write_line_def)
next
  case (Some w)
  from filtered_single_line [OF assms] obtain fl
    where fl: "RemoveIDField (singleMarketData data marketChange) = Inr fl"
      and ok: "is_single_market_line m fl" by blast
  define line where "line = (case enrichMarketData st m fl of Inl e \<Rightarrow> fl | Inr p \<Rightarrow> p)"
  have "is_single_market_line m line"
    using ok enrich_keeps_single_line [of m fl st m]
    by (auto simp: line_def split: sum.splits)
  moreover have "events (fst (write_line env m data marketChange st)) = events st @ [EvWrite m line]"
    using Some fl by (simp add: write_line_def Let_def line_def)
  ultimately show ?thesis by simp
qed


lemma appends_refl: "appends P st st"
  by (simp add: appends_def)

lemma appends_same_events: "events st' = events st \<Longrightarrow> appends P st st'"
  by (simp add: appends_def)

lemma appends_trans: "appends P st st' \<Longrightarrow> appends P st' st'' \<Longrightarrow> appends P st st''"
  by (auto simp: appends_def)

lemma appends_mono: "appends P st st' \<Longrightarrow> (\<And>e. P e \<Longrightarrow> Q e) \<Longrightarrow> appends Q st st'"
  by (auto simp: appends_def list_all_iff)

lemma appends_one: "events st' = events st @ [e] \<Longrightarrow> P e \<Longrightarrow> appends P st st'"
  by (simp add: appends_def)

lemma appends_list: "events st' = events st @ evs \<Longrightarrow> list_all P evs \<Longrightarrow> appends P st st'"
  by (auto simp: appends_def)

lemma fetch_appends: "appends plain_io st (snd (fetchMarketCatalogue env m st))"
  by (rule appends_list [where evs = "if marketCatalogues st m = None then [EvFetch m] else []"])
     simp_all

lemma create_appends: "appends plain_io st (snd (createWriterForMarket ok m st))"
  by (rule appends_one [where e = "EvCreate m (Join [outputPath (fileManager st), m])"]) simp_all

lemma settlement_appends: "appends plain_io st (snd (handleMarketSettlement env m pl st))"
  by (auto simp: appends_def handleMarketSettlement_def Let_def Upload_events
           split: option.splits sum.splits)


lemma write_line_appends_good:
  assumes "map_of marketChange ''id'' = Some (JStr m)"
  shows "appends good_line st (fst (write_line env m data marketChange st))"
proof -
  from write_line_events [OF assms, of env data st] obtain evs
    where ev: "events (fst (write_line env m data marketChange st)) = events st @ evs"
      and ok: "\<forall>e \<in> set evs. \<exists>pl. e = EvWrite m pl \<and> is_single_market_line m pl"
    by blast
  from ok have "list_all good_line evs" by (auto simp: list_all_iff)
  with ev show ?thesis by (rule appends_list)
qed

lemma write_line_appends_writes:
  "appends (\<lambda>e. \<exists>n pl. e = EvWrite n pl) st (fst (write_line env m data marketChange st))"
  by (auto simp: appends_def write_line_def Let_def split: option.splits sum.splits)

lemma plain_io_good: "plain_io e \<Longrightarrow> good_line e"
  by (cases e) simp_all

lemma plain_io_not_settle: "plain_io e \<Longrightarrow> e \<noteq> EvSettle x"
  by (cases e) simp_all

lemma process_market_lines:
  assumes "map_of marketChange ''id'' = Some (JStr m)"
  shows "appends good_line st (process_market env data m marketChange st)"
proof -
  define st1 where "st1 = snd (fetchMarketCatalogue env m st)"
  define st2 where "st2 = (if status_of marketChange \<noteq> []
      then st1\<lparr>marketStatuses := (marketStatuses st1)(m \<mapsto> status_of marketChange)\<rparr> else st1)"
  define st3 where "st3 = (if writers st2 m = None
      then snd (createWriterForMarket (create_ok env) m st2) else st2)"
  define st4 where "st4 = fst (write_line env m data marketChange st3)"
  define st5 where "st5 = snd (handleMarketSettlement env m (singleMarketData data marketChange)
      (log_event (EvSettle m) st4))"
  have a1: "appends good_line st st1"
    unfolding st1_def by (rule appends_mono [OF fetch_appends plain_io_good])
  have a2: "appends good_line st1 st2"
    unfolding st2_def by (rule appends_same_events) simp
  have a3: "appends good_line st2 st3"
    unfolding st3_def
    by (auto intro: appends_refl appends_mono [OF create_appends plain_io_good])
  have a4: "appends good_line st3 st4"
    unfolding st4_def by (rule write_line_appends_good [OF assms])
  have a5: "appends good_line st4 st5"
  proof -
    have "appends good_line st4 (log_event (EvSettle m) st4)"
      by (rule appends_one [where e = "EvSettle m"]) simp_all
    moreover have "appends good_line (log_event (EvSettle m) st4) st5"
      unfolding st5_def by (rule appends_mono [OF settlement_appends plain_io_good])
    ultimately show ?thesis by (rule appends_trans)
  qed
  have a04: "appends good_line st st4"
    using a1 a2 a3 a4 by (blast intro: appends_trans)
  have a05: "appends good_line st (st5\<lparr>marketCatalogues := (marketCatalogues st5)(m := None)\<rparr>)"
  proof -
    have "appends good_line st5 (st5\<lparr>marketCatalogues := (marketCatalogues st5)(m := None)\<rparr>)"
      by (rule appends_same_events) simp
    with a04 a5 show ?thesis by (blast intro: appends_trans)
  qed
  have "process_market env data m marketChange st = st4
      \<or> process_market env data m marketChange st
          = st5\<lparr>marketCatalogues := (marketCatalogues st5)(m := None)\<rparr>"
    by (simp add: process_market_def Let_def st1_def st2_def st3_def st4_def st5_def)
  with a04 a05 show ?thesis by auto
qed

lemma process_market_change_lines:
  "appends good_line st (process_market_change env data j st)"
  by (auto simp: process_market_change_def appends_refl process_market_lines
           split: json.splits option.splits)

lemma process_changes_lines:
  "appends good_line st (process_changes envs data js st)"
proof (induction js arbitrary: envs st)
  case Nil
  show ?case by (simp add: appends_refl)
next
  case (Cons j js)
  show ?case
    by (simp, rule appends_trans [OF process_market_change_lines Cons.IH])
qed

lemma store_clocks_events [simp]:
  "events (store_clocks pl st) = events st"
  "marketStatuses (store_clocks pl st) = marketStatuses st"
  by (simp_all add: store_clocks_def Let_def split: prod.splits)

lemma readMessage_lines: "appends good_line st (readMessage st fr)"
proof -
  have "appends good_line st (store_clocks (fst fr) st)"
    by (rule appends_same_events) simp
  then show ?thesis
    by (auto simp: readMessage_def Let_def intro: appends_trans process_changes_lines
             split: option.splits json.splits)
qed

lemma processStream_lines: "appends good_line st (processStream st frames)"
proof (induction frames arbitrary: st)
  case Nil
  show ?case by (simp add: processStream_def appends_refl)
next
  case (Cons fr frames)
  have "appends good_line (readMessage st fr) (processStream (readMessage st fr) frames)"
    by (rule Cons.IH)
  with readMessage_lines [of st fr] show ?case
    by (simp add: processStream_def) (rule appends_trans)
qed


text \<open>
  C3. \<open>EvWrite m pl\<close> records that \<^verbatim>\<open>readMessage\<close> handed the line \<open>pl\<close> to the writer
  registered for market \<open>m\<close>, the one opened on the file of that market. Every line
  written while a sequence of frames is processed is a JSON object with no top-level
  \<^verbatim>\<open>id\<close> whose \<^verbatim>\<open>mc\<close> array has exactly one element, and that element's \<^verbatim>\<open>id\<close> is \<open>m\<close>.
\<close>

theorem written_lines_single_market:
  assumes "EvWrite m pl \<in> set (events (processStream st frames))"
  shows "EvWrite m pl \<in> set (events st) \<or> is_single_market_line m pl"
proof -
  from processStream_lines [of st frames] obtain evs
    where ev: "events (processStream st frames) = events st @ evs" and ok: "list_all good_line evs"
    by (auto simp: appends_def)
  from assms ev have "EvWrite m pl \<in> set (events st) \<or> EvWrite m pl \<in> set evs" by auto
  then show ?thesis
  proof
    assume "EvWrite m pl \<in> set evs"
    with ok have "good_line (EvWrite m pl)" by (auto simp: list_all_iff)
    then show ?thesis by simp
  qed simp
qed

theorem written_lines_single_market_witness:
  "EvWrite ''1.A'' (line_for ''1.A'') \<in> set (events (processStream start_state [two_market_frame]))
   \<and> EvWrite ''1.B'' (line_for ''1.B'') \<in> set (events (processStream start_state [two_market_frame]))
   \<and> events start_state = []
   \<and> is_single_market_line ''1.A'' (line_for ''1.A'')
   \<and> is_single_market_line ''1.B'' (line_for ''1.B'')"
proof -
  have a: "EvWrite ''1.A'' (line_for ''1.A'')
             \<in> set (events (processStream start_state [two_market_frame]))"
    by (simp add: two_market_frame_def line_for_def eval_defs sample_defs)
  have b: "EvWrite ''1.B'' (line_for ''1.B'')
             \<in> set (events (processStream start_state [two_market_frame]))"
    by (simp add: two_market_frame_def line_for_def eval_defs sample_defs)
  have e: "events start_state = []"
    by (simp add: sample_defs)
  show ?thesis
    using written_lines_single_market [OF a] written_lines_single_market [OF b] a b e
    by simp
qed

section \<open>Settlement edges\<close>

lemma settlements_appends:
  assumes "appends (\<lambda>e. e \<noteq> EvSettle x) st st'"
  shows "settlements x st' = settlements x st"
proof -
  from assms obtain evs where ev: "events st' = events st @ evs"
    and ok: "list_all (\<lambda>e. e \<noteq> EvSettle x) evs"
    by (auto simp: appends_def)
  from ok have "filter (\<lambda>e. e = EvSettle x) evs = []"
    by (induction evs) auto
  with ev show ?thesis by (simp add: settlements_def)
qed

lemma settlements_plain:
  "appends plain_io st st' \<Longrightarrow> settlements x st' = settlements x st"
  by (rule settlements_appends) (erule appends_mono, erule plain_io_not_settle)

lemma settlements_same_events: "events st' = events st \<Longrightarrow> settlements x st' = settlements x st"
  by (simp add: settlements_def)

lemma settlements_write_line:
  "settlements x (fst (write_line env m data marketChange st)) = settlements x st"
  by (rule settlements_appends) (rule appends_mono [OF write_line_appends_writes], auto)

lemma settlements_log_settle:
  "settlements x (log_event (EvSettle m) st) = settlements x st + (if x = m then 1 else 0)"
  by (simp add: settlements_def)

lemma process_market_statuses:
  "marketStatuses (process_market env data m marketChange st) =
     (if status_of marketChange \<noteq> [] then (marketStatuses st)(m \<mapsto> status_of marketChange)
      else marketStatuses st)"
  by (simp add: process_market_def Let_def)

lemma process_market_settlements:
  "settlements x (process_market env data m marketChange st) \<le>
     settlements x st +
       (if x = m \<and> status_of marketChange \<noteq> [] \<and> \<not> IsMarketSettled (stored_status m st)
             \<and> IsMarketSettled (status_of marketChange) then 1 else 0)"
proof -
  define st1 where "st1 = snd (fetchMarketCatalogue env m st)"
  define st2 where "st2 = (if status_of marketChange \<noteq> []
      then st1\<lparr>marketStatuses := (marketStatuses st1)(m \<mapsto> status_of marketChange)\<rparr> else st1)"
  define st3 where "st3 = (if writers st2 m = None
      then snd (createWriterForMarket (create_ok env) m st2) else st2)"
  define st4 where "st4 = fst (write_line env m data marketChange st3)"
  define st5 where "st5 = snd (handleMarketSettlement env m (singleMarketData data marketChange)
      (log_event (EvSettle m) st4))"
  define just where "just \<longleftrightarrow> status_of marketChange \<noteq> [] \<and> \<not> IsMarketSettled (stored_status m st)
             \<and> IsMarketSettled (status_of marketChange)"
  have s1: "settlements x st1 = settlements x st"
    unfolding st1_def by (rule settlements_plain [OF fetch_appends])
  have s2: "settlements x st2 = settlements x st1"
    unfolding st2_def by (rule settlements_same_events) simp
  have s3: "settlements x st3 = settlements x st2"
    unfolding st3_def by (simp add: settlements_plain [OF create_appends])
  have s4: "settlements x st4 = settlements x st3"
    unfolding st4_def by (rule settlements_write_line)
  have s5: "settlements x st5 = settlements x st4 + (if x = m then 1 else 0)"
    unfolding st5_def
    by (simp add: settlements_plain [OF settlement_appends] settlements_log_settle)
  have s6: "settlements x (st5\<lparr>marketCatalogues := (marketCatalogues st5)(m := None)\<rparr>)
      = settlements x st5"
    by (rule settlements_same_events) simp
  have old: "(case marketStatuses st1 m of None \<Rightarrow> [] | Some s \<Rightarrow> s) = stored_status m st"
    by (simp add: st1_def stored_status_def)
  have "process_market env data m marketChange st =
      (if snd (write_line env m data marketChange st3) then st4
       else if just then st5\<lparr>marketCatalogues := (marketCatalogues st5)(m := None)\<rparr>
       else st4)"
    by (simp add: process_market_def Let_def st1_def st2_def st3_def st4_def st5_def just_def
          stored_status_def)
  moreover have "settlements x st4 = settlements x st"
    using s1 s2 s3 s4 by simp
  moreover have "settlements x (st5\<lparr>marketCatalogues := (marketCatalogues st5)(m := None)\<rparr>)
      = settlements x st + (if x = m then 1 else 0)"
    using s1 s2 s3 s4 s5 s6 by simp
  ultimately show ?thesis
    unfolding just_def [symmetric]
    by (cases just; cases "snd (write_line env m data marketChange st3)") simp_all
qed


lemma stored_status_process_market:
  "stored_status x (process_market env data m marketChange st) =
     (if x = m \<and> status_of marketChange \<noteq> [] then status_of marketChange else stored_status x st)"
  by (simp add: stored_status_def process_market_statuses)

lemma process_market_change_step:
  "stored_status x (process_market_change env data j st) = last (stored_status x st # entry_status x j)
   \<and> settlements x (process_market_change env data j st)
       \<le> settlements x st + settled_edges (stored_status x st) (entry_status x j)"
proof (cases j)
  case (JObj marketChange)
  show ?thesis
  proof (cases "map_of marketChange ''id''")
    case None
    with JObj show ?thesis by (simp add: process_market_change_def entry_status_def)
  next
    case (Some i)
    show ?thesis
    proof (cases i)
      case (JStr marketID)
      show ?thesis
      proof (cases "marketID = []")
        case True
        with JObj Some JStr show ?thesis by (simp add: process_market_change_def entry_status_def)
      next
        case False
        have eq: "process_market_change env data j st = process_market env data marketID marketChange st"
          using JObj Some JStr False by (simp add: process_market_change_def)
        show ?thesis
          unfolding eq
          using process_market_settlements [of x env data marketID marketChange st]
            JObj Some JStr False
          by (auto simp: entry_status_def stored_status_process_market)
      qed
    qed (use JObj Some in \<open>simp_all add: process_market_change_def entry_status_def\<close>)
  qed
qed (simp_all add: process_market_change_def entry_status_def)

lemma settled_edges_append:
  "settled_edges old (xs @ ys) = settled_edges old xs + settled_edges (last (old # xs)) ys"
  by (induction xs arbitrary: old) auto

lemma last_append_chain: "last (last (a # xs) # ys) = last (a # xs @ ys)"
  by (cases ys) auto

lemma process_changes_step:
  "stored_status x (process_changes envs data js st)
     = last (stored_status x st # concat (map (entry_status x) js))
   \<and> settlements x (process_changes envs data js st)
       \<le> settlements x st + settled_edges (stored_status x st) (concat (map (entry_status x) js))"
proof (induction js arbitrary: envs st)
  case Nil
  show ?case by simp
next
  case (Cons j js)
  define st1 where "st1 = process_market_change (envs 0) data j st"
  note a = process_market_change_step [of x "envs 0" data j st, folded st1_def]
  note b = Cons.IH [of "\<lambda>k. envs (Suc k)" st1]
  have eq: "process_changes envs data (j # js) st = process_changes (\<lambda>k. envs (Suc k)) data js st1"
    by (simp add: st1_def)
  show ?case
    unfolding eq using a b
    by (simp add: settled_edges_append last_append_chain del: last.simps)
qed

lemma stored_status_store_clocks [simp]:
  "stored_status x (store_clocks pl st) = stored_status x st"
  "settlements x (store_clocks pl st) = settlements x st"
  by (simp_all add: stored_status_def settlements_def)

lemma readMessage_step:
  "stored_status x (readMessage st fr) = last (stored_status x st # frame_statuses x fr)
   \<and> settlements x (readMessage st fr)
       \<le> settlements x st + settled_edges (stored_status x st) (frame_statuses x fr)"
proof (cases "ExtractOp (fst fr) = ''mcm'' \<and> ExtractChangeType (fst fr) \<noteq> ''HEARTBEAT''")
  case False
  then show ?thesis
    by (auto simp: readMessage_def frame_statuses_def Let_def)
next
  case live: True
  show ?thesis
  proof (cases "\<exists>data mc. fst fr = Some (JObj data) \<and> map_of data ''mc'' = Some (JArr mc)")
    case True
    then obtain data mc where pl: "fst fr = Some (JObj data)"
      and mc: "map_of data ''mc'' = Some (JArr mc)" by blast
    have r: "readMessage st fr = process_changes (snd fr) data mc (store_clocks (fst fr) st)"
      using live pl mc by (simp add: readMessage_def Let_def)
    have f: "frame_statuses x fr = concat (map (entry_status x) mc)"
      using live pl mc by (simp add: frame_statuses_def)
    show ?thesis
      unfolding r f
      using process_changes_step [of x "snd fr" data mc "store_clocks (fst fr) st"]
      by simp
  next
    case False
    then have r: "readMessage st fr = store_clocks (fst fr) st"
      by (auto simp: readMessage_def Let_def split: option.splits json.splits)
    from False have f: "frame_statuses x fr = []"
      by (auto simp: frame_statuses_def split: option.splits json.splits)
    show ?thesis unfolding r f by simp
  qed
qed

lemma processStream_step:
  "stored_status x (processStream st frames) = last (stored_status x st # observed_statuses x frames)
   \<and> settlements x (processStream st frames)
       \<le> settlements x st + settled_edges (stored_status x st) (observed_statuses x frames)"
proof (induction frames arbitrary: st)
  case Nil
  show ?case by (simp add: processStream_def observed_statuses_def)
next
  case (Cons fr frames)
  define st1 where "st1 = readMessage st fr"
  note a = readMessage_step [of x st fr, folded st1_def]
  note b = Cons.IH [of st1]
  have eq: "processStream st (fr # frames) = processStream st1 frames"
    by (simp add: processStream_def st1_def)
  have obs: "observed_statuses x (fr # frames) = frame_statuses x fr @ observed_statuses x frames"
    by (simp add: observed_statuses_def)
  show ?case
    unfolding eq obs using a b
    by (simp add: settled_edges_append last_append_chain del: last.simps)
qed


text \<open>
  C2, as amended. \<open>EvSettle m\<close> records that \<^verbatim>\<open>readMessage\<close> started the settlement
  transaction for \<open>m\<close>. Over any sequence of frames it is started at most once for
  every edge of the market's observed statuses from one that is not \<^verbatim>\<open>CLOSED\<close> (or
  from none) to \<^verbatim>\<open>CLOSED\<close>.
\<close>

theorem settlement_once_per_edge:
  "settlements m (processStream st frames)
     \<le> settlements m st + settled_edges (stored_status m st) (observed_statuses m frames)"
  using processStream_step [of m st frames] by simp

theorem settlement_once_per_edge_witness:
  "settlements ''1.T'' (processStream start_state closing_frames) = 1
   \<and> settlements ''1.T'' start_state = 0
   \<and> settled_edges (stored_status ''1.T'' start_state) (observed_statuses ''1.T'' closing_frames) = 1"
proof -
  have a: "settlements ''1.T'' (processStream start_state closing_frames) = 1"
    by (simp add: closing_frames_def settlements_def eval_defs sample_defs sample_paths
          sample_numbers)
  have b: "settlements ''1.T'' start_state = 0"
    by (simp add: settlements_def sample_defs)
  have c: "settled_edges (stored_status ''1.T'' start_state)
             (observed_statuses ''1.T'' closing_frames) = 1"
    by (simp add: closing_frames_def observed_statuses_def frame_statuses_def entry_status_def
          stored_status_def status_of_def ExtractOp_def ExtractChangeType_def string_field_def
          IsMarketSettled_def sample_defs)
  show ?thesis
    using settlement_once_per_edge [of "''1.T''" start_state closing_frames] a b c
    by simp
qed

text \<open>
  The claim as stated fails when a market leaves \<^verbatim>\<open>CLOSED\<close> and closes again: the
  status map then sees two edges, and the transaction is started twice for the one id.
\<close>

theorem reopened_market_settles_twice:
  "settlements ''1.T'' (processStream start_state reopening_frames) = 2"
  by (simp add: reopening_frames_def settlements_def eval_defs sample_defs sample_paths
        sample_numbers)

section \<open>Enrichment\<close>

lemma add_catalogue_names_lookup:
  "map_of (add_catalogue_names c md) ''marketName'' = Some (JStr (MarketName c))"
  "map_of (add_catalogue_names c md) ''eventName'' =
     (case Event c of Some ev \<Rightarrow> Some (JStr (Event_Name ev)) | None \<Rightarrow> map_of md ''eventName'')"
  "map_of (add_catalogue_names c md) ''venue'' =
     (case Event c of
        Some ev \<Rightarrow> if Event_Venue ev \<noteq> [] then Some (JStr (Event_Venue ev)) else map_of md ''venue''
      | None \<Rightarrow> map_of md ''venue'')"
  "map_of (add_catalogue_names c md) ''eventTypeName'' =
     (case EventType c of Some et \<Rightarrow> Some (JStr (EventType_Name et))
      | None \<Rightarrow> map_of md ''eventTypeName'')"
  "map_of (add_catalogue_names c md) ''competitionName'' =
     (case Competition c of Some cp \<Rightarrow> Some (JStr (Competition_Name cp))
      | None \<Rightarrow> map_of md ''competitionName'')"
  "map_of (add_catalogue_names c md) ''runners'' = map_of md ''runners''"
  by (simp_all add: add_catalogue_names_def Let_def update_conv' split: option.splits)

lemma enrich_runners_other:
  "k \<noteq> ''runners'' \<Longrightarrow> map_of (enrich_runners c md) k = map_of md k"
  by (simp add: enrich_runners_def update_conv' split: option.splits json.splits)

lemma runners_of_enrich_runners:
  "runners_of (enrich_runners c md) = map (enrich_runner (runnerMap (Runners c))) (runners_of md)"
  by (simp add: enrich_runners_def runners_of_def update_conv' split: option.splits json.splits)

lemma enrich_marketDef_names:
  "map_of (enrich_marketDef c md) ''marketName'' = Some (JStr (MarketName c))"
  "map_of (enrich_marketDef c md) ''eventName'' =
     (case Event c of Some ev \<Rightarrow> Some (JStr (Event_Name ev)) | None \<Rightarrow> map_of md ''eventName'')"
  "map_of (enrich_marketDef c md) ''venue'' =
     (case Event c of
        Some ev \<Rightarrow> if Event_Venue ev \<noteq> [] then Some (JStr (Event_Venue ev)) else map_of md ''venue''
      | None \<Rightarrow> map_of md ''venue'')"
  "map_of (enrich_marketDef c md) ''eventTypeName'' =
     (case EventType c of Some et \<Rightarrow> Some (JStr (EventType_Name et))
      | None \<Rightarrow> map_of md ''eventTypeName'')"
  "map_of (enrich_marketDef c md) ''competitionName'' =
     (case Competition c of Some cp \<Rightarrow> Some (JStr (Competition_Name cp))
      | None \<Rightarrow> map_of md ''competitionName'')"
  by (simp_all add: enrich_marketDef_def enrich_runners_other add_catalogue_names_lookup)

lemma enrich_marketDef_runners:
  "runners_of (enrich_marketDef c md) = map (enrich_runner (runnerMap (Runners c))) (runners_of md)"
  by (simp add: enrich_marketDef_def runners_of_enrich_runners)
     (simp add: runners_of_def add_catalogue_names_lookup)

lemma enrich_runner_found:
  assumes "map_of runner ''id'' = Some (JNum x)" and "rmap (int64_of_float x) = Some cr"
  shows "\<exists>runner'. enrich_runner rmap (JObj runner) = JObj runner'
      \<and> map_of runner' ''name'' = Some (JStr (RunnerName cr))
      \<and> map_of runner' ''sortPriority'' = Some (JNum (of_int (SortPriority cr)))
      \<and> map_of runner' ''handicap'' =
          (if Handicap cr \<noteq> 0 then Some (JNum (Handicap cr)) else map_of runner ''handicap'')
      \<and> map_of runner' ''adjustmentFactor'' =
          (if map_of runner ''adjustmentFactor'' = None then Some (JNum 0)
           else map_of runner ''adjustmentFactor'')"
  using assms by (simp add: enrich_runner_def Let_def update_conv')

lemma enrich_runner_not_found:
  assumes "map_of runner ''id'' = Some (JNum x)" and "rmap (int64_of_float x) = None"
  shows "enrich_runner rmap (JObj runner) = JObj runner"
  using assms by (simp add: enrich_runner_def)

lemma object_ofE:
  assumes "object_of x = Some obj"
  shows "x = Some (JObj obj)"
  using assms by (auto elim: object_of.elims)

lemma first_object_ofE:
  assumes "first_object_of x = Some entry"
  obtains others where "x = Some (JArr (JObj entry # others))"
  using assms by (auto elim: first_object_of.elims)

lemma marketDefinition_ofE:
  assumes "marketDefinition_of pl = Some md"
  obtains data market others where "pl = Some (JObj data)"
    and "map_of data ''mc'' = Some (JArr (JObj market # others))"
    and "map_of market ''marketDefinition'' = Some (JObj md)"
proof -
  from assms obtain data market where d: "object_of pl = Some data"
    and m: "first_object_of (map_of data ''mc'') = Some market"
    and o: "object_of (map_of market ''marketDefinition'') = Some md"
    by (auto simp: marketDefinition_of_def split: option.splits)
  from m obtain others where "map_of data ''mc'' = Some (JArr (JObj market # others))"
    by (rule first_object_ofE)
  with object_ofE [OF d] object_ofE [OF o] show thesis using that by blast
qed

lemma enrichMarketData_marketDefinition:
  assumes "marketCatalogues st m = Some c" and "marketDefinition_of pl = Some md"
  shows "\<exists>pl'. enrichMarketData st m pl = Inr pl'
           \<and> marketDefinition_of pl' = Some (enrich_marketDef c md)"
proof -
  from assms(2) obtain data market others where "pl = Some (JObj data)"
    and "map_of data ''mc'' = Some (JArr (JObj market # others))"
    and "map_of market ''marketDefinition'' = Some (JObj md)"
    by (rule marketDefinition_ofE)
  with assms(1) show ?thesis
    by (simp add: enrichMarketData_def marketDefinition_of_def update_conv')
qed

lemma enrichMarketData_unchanged:
  "marketCatalogues st m = None \<Longrightarrow> enrichMarketData st m pl = Inr pl"
  by (simp add: enrichMarketData_def)

lemma write_line_one_line:
  assumes "writers st m = Some w"
    and "RemoveIDField (singleMarketData data marketChange) = Inr filteredPayload"
  shows "events (fst (write_line env m data marketChange st)) =
           events st @ [EvWrite m (case enrichMarketData st m filteredPayload of
                                     Inl e \<Rightarrow> filteredPayload | Inr p \<Rightarrow> p)]"
  using assms by (simp add: write_line_def Let_def)

lemma RemoveIDField_single:
  "RemoveIDField (singleMarketData data marketChange) =
     Inr (Some (JObj [(''op'', field data ''op''), (''pt'', field data ''pt''),
                 (''clk'', field data ''clk''), (''mc'', JArr [JObj marketChange])]))"
  by (simp add: RemoveIDField_def singleMarketData_def)




text \<open>
  C9. With a catalogue cached for the market and a payload whose first \<^verbatim>\<open>mc\<close> entry has a
  market definition, \<^verbatim>\<open>enrichMarketData\<close> succeeds and the market definition of its
  result has \<^verbatim>\<open>marketName\<close>; \<^verbatim>\<open>eventName\<close> when the catalogue has an event, and \<^verbatim>\<open>venue\<close>
  only when that event's venue is not empty; \<^verbatim>\<open>eventTypeName\<close> and \<^verbatim>\<open>competitionName\<close>
  when the catalogue has them; fields not set keep what the payload had. The runners
  keep their number and order; a runner whose numeric id is in the catalogue's runner
  map gets \<^verbatim>\<open>name\<close> and \<^verbatim>\<open>sortPriority\<close>, \<^verbatim>\<open>handicap\<close> only when it is not zero, and
  \<^verbatim>\<open>adjustmentFactor\<close> zero only when it had none; a runner whose id is not in the map
  is unchanged. Whatever enrichment returns, \<^verbatim>\<open>readMessage\<close> hands one line to the
  market's writer: the enriched payload, or the filtered one when enrichment fails.
\<close>

theorem enrichment_adds_catalogue_fields:
  assumes cat: "marketCatalogues st m = Some c" and md: "marketDefinition_of pl = Some md"
  shows "\<exists>pl' md'. enrichMarketData st m pl = Inr pl' \<and> marketDefinition_of pl' = Some md'
     \<and> map_of md' ''marketName'' = Some (JStr (MarketName c))
     \<and> map_of md' ''eventName'' =
         (case Event c of Some ev \<Rightarrow> Some (JStr (Event_Name ev)) | None \<Rightarrow> map_of md ''eventName'')
     \<and> map_of md' ''venue'' =
         (case Event c of
            Some ev \<Rightarrow> if Event_Venue ev \<noteq> [] then Some (JStr (Event_Venue ev))
                       else map_of md ''venue''
          | None \<Rightarrow> map_of md ''venue'')
     \<and> map_of md' ''eventTypeName'' =
         (case EventType c of Some et \<Rightarrow> Some (JStr (EventType_Name et))
          | None \<Rightarrow> map_of md ''eventTypeName'')
     \<and> map_of md' ''competitionName'' =
         (case Competition c of Some cp \<Rightarrow> Some (JStr (Competition_Name cp))
          | None \<Rightarrow> map_of md ''competitionName'')
     \<and> length (runners_of md') = length (runners_of md)
     \<and> (\<forall>i < length (runners_of md). \<forall>runner x.
           runners_of md ! i = JObj runner \<and> map_of runner ''id'' = Some (JNum x) \<longrightarrow>
           (case runnerMap (Runners c) (int64_of_float x) of
              Some cr \<Rightarrow>
                (\<exists>runner'. runners_of md' ! i = JObj runner'
                   \<and> map_of runner' ''name'' = Some (JStr (RunnerName cr))
                   \<and> map_of runner' ''sortPriority'' = Some (JNum (of_int (SortPriority cr)))
                   \<and> map_of runner' ''handicap'' =
                       (if Handicap cr \<noteq> 0 then Some (JNum (Handicap cr))
                        else map_of runner ''handicap'')
                   \<and> map_of runner' ''adjustmentFactor'' =
                       (if map_of runner ''adjustmentFactor'' = None then Some (JNum 0)
                        else map_of runner ''adjustmentFactor''))
            | None \<Rightarrow> runners_of md' ! i = JObj runner))
     \<and> (\<forall>env data marketChange w filteredPayload.
           writers st m = Some w
           \<and> RemoveIDField (singleMarketData data marketChange) = Inr filteredPayload \<longrightarrow>
           events (fst (write_line env m data marketChange st)) =
             events st @ [EvWrite m (case enrichMarketData st m filteredPayload of
                                       Inl e \<Rightarrow> filteredPayload | Inr p \<Rightarrow> p)])"
proof -
  from enrichMarketData_marketDefinition [OF cat md] obtain pl'
    where e: "enrichMarketData st m pl = Inr pl'"
      and d: "marketDefinition_of pl' = Some (enrich_marketDef c md)" by blast
  have runners: "\<forall>i < length (runners_of md). \<forall>runner x.
           runners_of md ! i = JObj runner \<and> map_of runner ''id'' = Some (JNum x) \<longrightarrow>
           (case runnerMap (Runners c) (int64_of_float x) of
              Some cr \<Rightarrow>
                (\<exists>runner'. runners_of (enrich_marketDef c md) ! i = JObj runner'
                   \<and> map_of runner' ''name'' = Some (JStr (RunnerName cr))
                   \<and> map_of runner' ''sortPriority'' = Some (JNum (of_int (SortPriority cr)))
                   \<and> map_of runner' ''handicap'' =
                       (if Handicap cr \<noteq> 0 then Some (JNum (Handicap cr))
                        else map_of runner ''handicap'')
                   \<and> map_of runner' ''adjustmentFactor'' =
                       (if map_of runner ''adjustmentFactor'' = None then Some (JNum 0)
                        else map_of runner ''adjustmentFactor''))
            | None \<Rightarrow> runners_of (enrich_marketDef c md) ! i = JObj runner)"
  proof (intro allI impI)
    fix i runner x
    assume i: "i < length (runners_of md)"
      and r: "runners_of md ! i = JObj runner \<and> map_of runner ''id'' = Some (JNum x)"
    have nth: "runners_of (enrich_marketDef c md) ! i
                 = enrich_runner (runnerMap (Runners c)) (JObj runner)"
      using i r by (simp add: enrich_marketDef_runners)
    show "case runnerMap (Runners c) (int64_of_float x) of
              Some cr \<Rightarrow>
                (\<exists>runner'. runners_of (enrich_marketDef c md) ! i = JObj runner'
                   \<and> map_of runner' ''name'' = Some (JStr (RunnerName cr))
                   \<and> map_of runner' ''sortPriority'' = Some (JNum (of_int (SortPriority cr)))
                   \<and> map_of runner' ''handicap'' =
                       (if Handicap cr \<noteq> 0 then Some (JNum (Handicap cr))
                        else map_of runner ''handicap'')
                   \<and> map_of runner' ''adjustmentFactor'' =
                       (if map_of runner ''adjustmentFactor'' = None then Some (JNum 0)
                        else map_of runner ''adjustmentFactor''))
            | None \<Rightarrow> runners_of (enrich_marketDef c md) ! i = JObj runner"
    proof (cases "runnerMap (Runners c) (int64_of_float x)")
      case None
      with r show ?thesis by (simp add: nth enrich_runner_not_found)
    next
      case (Some cr)
      from r have id: "map_of runner ''id'' = Some (JNum x)" by simp
      from enrich_runner_found [of runner x "runnerMap (Runners c)" cr, OF id Some] show ?thesis
        unfolding nth using Some by simp
    qed
  qed
  have line: "\<forall>env data marketChange w filteredPayload.
           writers st m = Some w
           \<and> RemoveIDField (singleMarketData data marketChange) = Inr filteredPayload \<longrightarrow>
           events (fst (write_line env m data marketChange st)) =
             events st @ [EvWrite m (case enrichMarketData st m filteredPayload of
                                       Inl e \<Rightarrow> filteredPayload | Inr p \<Rightarrow> p)]"
    by (auto simp: write_line_one_line)
  show ?thesis
    apply (rule exI [of _ pl'], rule exI [of _ "enrich_marketDef c md"])
    apply (intro conjI)
              apply (rule e)
             apply (rule d)
            apply (rule enrich_marketDef_names(1))
           apply (rule enrich_marketDef_names(2))
          apply (rule enrich_marketDef_names(3))
         apply (rule enrich_marketDef_names(4))
        apply (rule enrich_marketDef_names(5))
       apply (simp add: enrich_marketDef_runners)
      apply (rule runners)
    apply (rule line)
    done
qed


lemma nadia_facts:
  "marketCatalogues nadia_state ''1.T'' = Some nadia_catalogue"
  "writers nadia_state ''1.T'' = Some \<lparr>w_fd = 3, w_path = ''out/1.T'', w_buf = []\<rparr>"
  by (simp_all add: nadia_state_def local_recording_state_def eval_defs sample_defs sample_paths)

lemma nadia_enriched:
  "enrichMarketData nadia_state ''1.T'' nadia_payload =
       Inr (Some (JObj [(''op'', JStr ''mcm''),
         (''mc'', JArr [JObj [(''id'', JStr ''1.T''),
            (''marketDefinition'', JObj
               [(''status'', JStr ''OPEN''),
                (''runners'', JArr [JObj [(''id'', JNum 1), (''status'', JStr ''ACTIVE''),
                    (''adjustmentFactor'', JNum 0), (''name'', JStr ''Fantastic Nadia''),
                    (''sortPriority'', JNum 1)]]),
                (''marketName'', JStr ''Win''),
                (''eventName'', JStr ''Healesville R1''),
                (''venue'', JStr ''Healesville'')])]])]))"
  by (simp add: enrichMarketData_def nadia_facts)
     (simp add: nadia_payload_def nadia_marketDef_def nadia_catalogue_def
        enrich_marketDef_def add_catalogue_names_def enrich_runners_def
        enrich_runner_def runnerMap_def int64_of_float_def Let_def)

theorem enrichment_adds_catalogue_fields_witness:
  "marketCatalogues nadia_state ''1.T'' = Some nadia_catalogue
   \<and> marketDefinition_of nadia_payload = Some nadia_marketDef
   \<and> writers nadia_state ''1.T'' = Some \<lparr>w_fd = 3, w_path = ''out/1.T'', w_buf = []\<rparr>
   \<and> enrichMarketData nadia_state ''1.T'' nadia_payload =
       Inr (Some (JObj [(''op'', JStr ''mcm''),
         (''mc'', JArr [JObj [(''id'', JStr ''1.T''),
            (''marketDefinition'', JObj
               [(''status'', JStr ''OPEN''),
                (''runners'', JArr [JObj [(''id'', JNum 1), (''status'', JStr ''ACTIVE''),
                    (''adjustmentFactor'', JNum 0), (''name'', JStr ''Fantastic Nadia''),
                    (''sortPriority'', JNum 1)]]),
                (''marketName'', JStr ''Win''),
                (''eventName'', JStr ''Healesville R1''),
                (''venue'', JStr ''Healesville'')])]])]))
   \<and> (\<exists>line. events (fst (write_line io_ok ''1.T'' [] [(''id'', JStr ''1.T'')] nadia_state))
                = events nadia_state @ [EvWrite ''1.T'' line])"
proof -
  have d: "marketDefinition_of nadia_payload = Some nadia_marketDef"
    by (simp add: nadia_payload_def marketDefinition_of_def)
  have f: "RemoveIDField (singleMarketData [] [(''id'', JStr ''1.T'')]) =
      Inr (Some (JObj [(''op'', JNull), (''pt'', JNull), (''clk'', JNull),
                       (''mc'', JArr [JObj [(''id'', JStr ''1.T'')]])]))"
    by (simp add: RemoveIDField_def singleMarketData_def field_def)
  from enrichment_adds_catalogue_fields [OF nadia_facts(1) d]
  have "\<forall>env data marketChange w filteredPayload.
           writers nadia_state ''1.T'' = Some w
           \<and> RemoveIDField (singleMarketData data marketChange) = Inr filteredPayload \<longrightarrow>
           events (fst (write_line env ''1.T'' data marketChange nadia_state)) =
             events nadia_state @ [EvWrite ''1.T'' (case enrichMarketData nadia_state ''1.T'' filteredPayload of
                                       Inl e \<Rightarrow> filteredPayload | Inr p \<Rightarrow> p)]"
    by blast
  with nadia_facts(2) f
  have "\<exists>line. events (fst (write_line io_ok ''1.T'' [] [(''id'', JStr ''1.T'')] nadia_state))
                = events nadia_state @ [EvWrite ''1.T'' line]"
    by blast
  with nadia_facts d nadia_enriched show ?thesis by simp
qed

section \<open>The retry budget\<close>

lemma attempts_from_self: "attempts_from d k k = [Connect k]"
  by (simp add: attempts_from_def)

lemma attempts_from_step:
  "a < k \<Longrightarrow> attempts_from d a k = Connect a # Backoff d # attempts_from d (Suc a) k"
  by (simp add: attempts_from_def upt_conv_Cons)

lemma reconnect_loop_past:
  "maxRetries < attempt \<Longrightarrow>
     reconnect_loop maxRetries d c env attempt lastErr tr
       = (Wrapped ''max retries exceeded'' lastErr, tr)"
  by (simp add: reconnect_loop.simps)

lemma reconnect_loop_stop:
  assumes "attempt \<le> maxRetries"
    and "reconnect_loop maxRetries d c env attempt lastErr tr = (r, tr @ [Connect attempt])"
    and "final_attempt maxRetries c env attempt r"
  shows "\<exists>k. attempt \<le> k \<and> k \<le> maxRetries
     \<and> snd (reconnect_loop maxRetries d c env attempt lastErr tr) = tr @ attempts_from d attempt k
     \<and> (\<forall>i. attempt \<le> i \<and> i < k \<longrightarrow> retried (fst (env i)) \<and> \<not> snd (env i))
     \<and> final_attempt maxRetries c env k (fst (reconnect_loop maxRetries d c env attempt lastErr tr))"
  using assms by (intro exI [of _ attempt]) (auto simp: attempts_from_self)

lemma reconnect_loop_go_on:
  assumes more: "attempt < maxRetries"
    and eq: "reconnect_loop maxRetries d c env attempt lastErr tr
            = reconnect_loop maxRetries d c env (Suc attempt) l' (tr @ [Connect attempt, Backoff d])"
    and here: "retried (fst (env attempt))" "\<not> snd (env attempt)"
    and IH: "\<exists>k. Suc attempt \<le> k \<and> k \<le> maxRetries
     \<and> snd (reconnect_loop maxRetries d c env (Suc attempt) l' (tr @ [Connect attempt, Backoff d]))
          = (tr @ [Connect attempt, Backoff d]) @ attempts_from d (Suc attempt) k
     \<and> (\<forall>i. Suc attempt \<le> i \<and> i < k \<longrightarrow> retried (fst (env i)) \<and> \<not> snd (env i))
     \<and> final_attempt maxRetries c env k
          (fst (reconnect_loop maxRetries d c env (Suc attempt) l' (tr @ [Connect attempt, Backoff d])))"
  shows "\<exists>k. attempt \<le> k \<and> k \<le> maxRetries
     \<and> snd (reconnect_loop maxRetries d c env attempt lastErr tr) = tr @ attempts_from d attempt k
     \<and> (\<forall>i. attempt \<le> i \<and> i < k \<longrightarrow> retried (fst (env i)) \<and> \<not> snd (env i))
     \<and> final_attempt maxRetries c env k (fst (reconnect_loop maxRetries d c env attempt lastErr tr))"
proof -
  from IH obtain k where k: "Suc attempt \<le> k" "k \<le> maxRetries"
    and tr: "snd (reconnect_loop maxRetries d c env (Suc attempt) l' (tr @ [Connect attempt, Backoff d]))
          = (tr @ [Connect attempt, Backoff d]) @ attempts_from d (Suc attempt) k"
    and before: "\<forall>i. Suc attempt \<le> i \<and> i < k \<longrightarrow> retried (fst (env i)) \<and> \<not> snd (env i)"
    and fin: "final_attempt maxRetries c env k
          (fst (reconnect_loop maxRetries d c env (Suc attempt) l' (tr @ [Connect attempt, Backoff d])))"
    by blast
  from k have lt: "attempt < k" by simp
  have all: "\<forall>i. attempt \<le> i \<and> i < k \<longrightarrow> retried (fst (env i)) \<and> \<not> snd (env i)"
  proof (intro allI impI)
    fix i assume i: "attempt \<le> i \<and> i < k"
    show "retried (fst (env i)) \<and> \<not> snd (env i)"
    proof (cases "i = attempt")
      case True
      with here show ?thesis by simp
    next
      case False
      with i have "Suc attempt \<le> i \<and> i < k" by simp
      with before show ?thesis by blast
    qed
  qed
  show ?thesis
    unfolding eq
    using k lt tr fin all attempts_from_step [OF lt, of d]
    by (intro exI [of _ k]) simp
qed

lemma reconnect_loop_outcomes:
  "attempt \<le> maxRetries \<Longrightarrow>
   \<exists>k. attempt \<le> k \<and> k \<le> maxRetries
     \<and> snd (reconnect_loop maxRetries d c env attempt lastErr tr) = tr @ attempts_from d attempt k
     \<and> (\<forall>i. attempt \<le> i \<and> i < k \<longrightarrow> retried (fst (env i)) \<and> \<not> snd (env i))
     \<and> final_attempt maxRetries c env k (fst (reconnect_loop maxRetries d c env attempt lastErr tr))"
proof (induction maxRetries d c env attempt lastErr tr rule: reconnect_loop.induct)
  case (1 maxRetries d c env attempt lastErr tr)
  show ?case
  proof (cases "fst (env attempt)")
    case (ConnectFailed e)
    show ?thesis
    proof (cases "attempt < maxRetries")
      case last: False
      with "1.prems" have eq: "attempt = maxRetries" by simp
      have "reconnect_loop maxRetries d c env attempt lastErr tr
              = (Wrapped ''max retries exceeded'' (Some e), tr @ [Connect attempt])"
        using ConnectFailed eq
        by (subst reconnect_loop.simps) (simp add: reconnect_loop_past)
      moreover have "final_attempt maxRetries c env attempt (Wrapped ''max retries exceeded'' (Some e))"
        using ConnectFailed eq by (simp add: final_attempt_def)
      ultimately show ?thesis by (rule reconnect_loop_stop [OF "1.prems"])
    next
      case more: True
      show ?thesis
      proof (cases "snd (env attempt)")
        case True
        have "reconnect_loop maxRetries d c env attempt lastErr tr = (c, tr @ [Connect attempt])"
          using ConnectFailed more True by (subst reconnect_loop.simps) simp
        moreover have "final_attempt maxRetries c env attempt c"
          using ConnectFailed more True by (simp add: final_attempt_def)
        ultimately show ?thesis by (rule reconnect_loop_stop [OF "1.prems"])
      next
        case False
        have eq: "reconnect_loop maxRetries d c env attempt lastErr tr
            = reconnect_loop maxRetries d c env (Suc attempt) (Some e)
                (tr @ [Connect attempt, Backoff d])"
          using ConnectFailed more False by (subst reconnect_loop.simps) simp
        from more have le: "Suc attempt \<le> maxRetries" by simp
        show ?thesis
          by (rule reconnect_loop_go_on [OF more eq _ False
                "1.IH"(1) [OF "1.prems" ConnectFailed more False le]])
             (simp add: ConnectFailed)
      qed
    qed
  next
    case (StreamFailed e)
    show ?thesis
    proof (cases "isRetriableError e \<and> attempt < maxRetries")
      case stop: False
      have "reconnect_loop maxRetries d c env attempt lastErr tr = (e, tr @ [Connect attempt])"
        using StreamFailed stop "1.prems" by (subst reconnect_loop.simps) auto
      moreover have "final_attempt maxRetries c env attempt e"
        using StreamFailed stop "1.prems" by (auto simp: final_attempt_def)
      ultimately show ?thesis by (rule reconnect_loop_stop [OF "1.prems"])
    next
      case retry: True
      then have more: "attempt < maxRetries" by simp
      show ?thesis
      proof (cases "snd (env attempt)")
        case True
        have "reconnect_loop maxRetries d c env attempt lastErr tr = (c, tr @ [Connect attempt])"
          using StreamFailed retry True by (subst reconnect_loop.simps) simp
        moreover have "final_attempt maxRetries c env attempt c"
          using StreamFailed retry True by (simp add: final_attempt_def)
        ultimately show ?thesis by (rule reconnect_loop_stop [OF "1.prems"])
      next
        case False
        have eq: "reconnect_loop maxRetries d c env attempt lastErr tr
            = reconnect_loop maxRetries d c env (Suc attempt) (Some e)
                (tr @ [Connect attempt, Backoff d])"
          using StreamFailed retry False by (subst reconnect_loop.simps) simp
        from more have le: "Suc attempt \<le> maxRetries" by simp
        show ?thesis
          by (rule reconnect_loop_go_on [OF more eq _ False
                "1.IH"(3) [OF "1.prems" StreamFailed retry False le]])
             (simp add: StreamFailed retry)
      qed
    qed
  qed
qed



text \<open>
  C4, as amended. One call of \<^verbatim>\<open>runWithReconnect\<close> makes the attempts 1 to \<open>k\<close> for some
  \<open>k\<close> no larger than \<open>maxRetries\<close>, with exactly one backoff of \<open>retryDelay\<close> between
  consecutive attempts. Every attempt before the last one made was retried: the
  connection could not be established, or it was established and the stream ended with a
  retriable error; both count against the one budget, which an established connection
  does not reset. The run ends in one of three ways: the context is done during a
  backoff; a stream error is returned as it is, at attempt \<open>maxRetries\<close> or when it is
  not retriable; or attempt \<open>maxRetries\<close> could not connect and its error is returned
  wrapped in \<^verbatim>\<open>max retries exceeded\<close>.
\<close>

theorem reconnect_budget:
  assumes "1 \<le> maxRetries"
  shows "\<exists>k. 1 \<le> k \<and> k \<le> maxRetries
     \<and> snd (runWithReconnect maxRetries retryDelay ctxErr env) = attempts_from retryDelay 1 k
     \<and> (\<forall>i. 1 \<le> i \<and> i < k \<longrightarrow> retried (fst (env i)) \<and> \<not> snd (env i))
     \<and> final_attempt maxRetries ctxErr env k (fst (runWithReconnect maxRetries retryDelay ctxErr env))"
  using reconnect_loop_outcomes [OF assms, of retryDelay ctxErr env None "[]"]
  by (simp add: runWithReconnect_def)

lemma refused_run:
  "runWithReconnect default_maxRetries default_retryDelay Canceled refusing_env =
     (Wrapped ''max retries exceeded'' (Some (Msg ''dial failed'')),
      [Connect 1, Backoff 30, Connect 2, Backoff 30, Connect 3, Backoff 30, Connect 4, Backoff 30,
       Connect 5])"
  by (simp add: runWithReconnect_def default_maxRetries_def default_retryDelay_def
        refusing_env_def reconnect_loop.simps)

theorem reconnect_budget_witness:
  "1 \<le> default_maxRetries
   \<and> runWithReconnect default_maxRetries default_retryDelay Canceled refusing_env =
     (Wrapped ''max retries exceeded'' (Some (Msg ''dial failed'')),
      [Connect 1, Backoff 30, Connect 2, Backoff 30, Connect 3, Backoff 30, Connect 4, Backoff 30,
       Connect 5])
   \<and> attempts_from default_retryDelay 1 5 =
      [Connect 1, Backoff 30, Connect 2, Backoff 30, Connect 3, Backoff 30, Connect 4, Backoff 30,
       Connect 5]
   \<and> final_attempt default_maxRetries Canceled refusing_env 5
        (Wrapped ''max retries exceeded'' (Some (Msg ''dial failed'')))"
proof -
  have h: "1 \<le> default_maxRetries" by (simp add: default_maxRetries_def)
  have t: "attempts_from default_retryDelay 1 5 =
      [Connect 1, Backoff 30, Connect 2, Backoff 30, Connect 3, Backoff 30, Connect 4, Backoff 30,
       Connect 5]"
    by (simp add: attempts_from_def default_retryDelay_def upt_rec)
  have f: "final_attempt default_maxRetries Canceled refusing_env 5
        (Wrapped ''max retries exceeded'' (Some (Msg ''dial failed'')))"
    by (simp add: final_attempt_def default_maxRetries_def refusing_env_def)
  show ?thesis
    using reconnect_budget [OF h, of default_retryDelay Canceled refusing_env] h t f refused_run
    by simp
qed


text \<open>
  The claim as stated has a stream error reset the counter on the next established
  connection. Here four connections are established and end with end of stream, and
  the fifth attempt is refused: one refusal, and the budget is spent.
\<close>

theorem one_refusal_after_four_streams_exhausts_budget:
  "fst (reset_env 1) = StreamFailed EOF \<and> fst (reset_env 2) = StreamFailed EOF
   \<and> fst (reset_env 3) = StreamFailed EOF \<and> fst (reset_env 4) = StreamFailed EOF
   \<and> fst (reset_env 5) = ConnectFailed (Msg ''dial failed'')
   \<and> runWithReconnect default_maxRetries default_retryDelay Canceled reset_env =
     (Wrapped ''max retries exceeded'' (Some (Msg ''dial failed'')),
      [Connect 1, Backoff 30, Connect 2, Backoff 30, Connect 3, Backoff 30, Connect 4, Backoff 30,
       Connect 5])"
  by (simp add: runWithReconnect_def default_maxRetries_def default_retryDelay_def
        reset_env_def reconnect_loop.simps isRetriableError_def)

section \<open>The object-store key\<close>

lemma split_slash_nonempty [simp]: "split_slash p \<noteq> []"
  by (induction p) (auto split: list.splits)

lemma split_slash_append:
  "split_slash (a @ CHR ''/'' # b) = split_slash a @ split_slash b"
  by (induction a) (auto split: list.splits)

lemma split_slash_single: "CHR ''/'' \<notin> set e \<Longrightarrow> split_slash e = [e]"
  by (induction e) auto

lemma join_split_slash: "join_slash (split_slash p) = p"
proof (induction p)
  case Nil
  show ?case by simp
next
  case (Cons c cs)
  show ?case
  proof (cases "c = CHR ''/''")
    case True
    with Cons show ?thesis
      by (cases "split_slash cs") auto
  next
    case False
    with Cons show ?thesis
      by (cases "split_slash cs" rule: join_slash.cases) auto
  qed
qed

lemma clean_elems_plain:
  "list_all plain_elem es \<Longrightarrow> clean_elems rooted out es = rev out @ es"
  by (induction es arbitrary: out) (auto simp: plain_elem_def)

lemma Clean_plain:
  assumes "list_all plain_elem (split_slash p)"
  shows "Clean p = p"
proof -
  from assms have ne: "p \<noteq> []"
    by (auto simp: plain_elem_def)
  from assms ne have nr: "hd p \<noteq> CHR ''/''"
    by (cases p) (auto simp: plain_elem_def)
  show ?thesis
    using ne nr by (simp add: Clean_def Let_def clean_elems_plain [OF assms] join_split_slash)
qed

lemma digits_chars: "digits n \<noteq> [] \<and> set (digits n) \<subseteq> set ''0123456789''"
proof (induction n rule: digits.induct)
  case (1 n)
  have d: "\<And>k. k < 10 \<Longrightarrow> ''0123456789'' ! k \<in> set ''0123456789''"
    by (rule nth_mem) simp
  show ?case
  proof (cases "n < 10")
    case True
    with d [of n] show ?thesis by (subst digits.simps, subst (2) digits.simps) simp
  next
    case False
    have "n mod 10 < 10" by simp
    from d [OF this] "1.IH" [OF False] False show ?thesis
      by (subst digits.simps, subst (2) digits.simps) simp
  qed
qed

lemma plain_elem_digits: "plain_elem (digits n)"
  using digits_chars [of n] by (auto simp: plain_elem_def)

lemma plain_elem_Itoa: "plain_elem (Itoa i)"
  using digits_chars [of "nat (- i)"] plain_elem_digits [of "nat i"]
  by (auto simp: Itoa_def plain_elem_def)

lemma plain_elem_month: "plain_elem (month_abbrev m)" "length (month_abbrev m) = 3"
  by (cases m; simp add: plain_elem_def)+

lemma plain_elem_filename: "CHR ''/'' \<notin> set m \<Longrightarrow> plain_elem (m @ ''.bz2'')"
  by (cases m rule: rev_cases) (auto simp: plain_elem_def)

lemma length_digits_1: "n < 10 \<Longrightarrow> length (digits n) = 1"
  by (subst digits.simps) simp

lemma length_digits_2: "10 \<le> n \<Longrightarrow> n < 100 \<Longrightarrow> length (digits n) = 2"
  by (subst digits.simps) (simp add: length_digits_1)

lemma length_digits_3: "100 \<le> n \<Longrightarrow> n < 1000 \<Longrightarrow> length (digits n) = 3"
  by (subst digits.simps) (simp add: length_digits_2)

lemma length_digits_4: "1000 \<le> n \<Longrightarrow> n < 10000 \<Longrightarrow> length (digits n) = 4"
  by (subst digits.simps) (simp add: length_digits_3)


lemma split_join_Cons:
  "es \<noteq> [] \<Longrightarrow> split_slash (join_slash (b # es)) = split_slash b @ split_slash (join_slash es)"
  by (cases es) (simp_all add: split_slash_append)

lemma split_join_plain:
  "es \<noteq> [] \<Longrightarrow> list_all plain_elem es \<Longrightarrow> split_slash (join_slash es) = es"
proof (induction es rule: join_slash.induct)
  case (3 x y ys)
  then show ?case
    by (simp add: split_slash_append split_slash_single plain_elem_def)
qed (simp_all add: split_slash_single plain_elem_def)

lemma Join_plain:
  assumes base: "list_all plain_elem (split_slash b)" and rest: "list_all plain_elem es" "es \<noteq> []"
  shows "Join (b # es) = join_slash (b # es)"
proof -
  from base have ne: "b \<noteq> []" by (auto simp: plain_elem_def)
  have "split_slash (join_slash (b # es)) = split_slash b @ es"
    using rest by (simp add: split_join_Cons split_join_plain)
  with base rest have "list_all plain_elem (split_slash (join_slash (b # es)))" by simp
  then have "Clean (join_slash (b # es)) = join_slash (b # es)" by (rule Clean_plain)
  with ne show ?thesis by (simp add: Join_def)
qed


text \<open>
  C7, as amended, on a host whose path separator is the forward slash. When the first
  \<^verbatim>\<open>mc\<close> entry of the settlement payload decodes to an event id and an open date (the
  zero time, January 1 of year 1, when the payload has none), the event id is a single
  path element, the market id has no slash and the base path is a relative path of
  such elements, the key is the base path (or \<^verbatim>\<open>raw_greyhounds_data\<close>), \<^verbatim>\<open>PRO\<close>, the
  year, the month, the day, the event id and the market id with \<^verbatim>\<open>.bz2\<close>, joined by
  forward slashes. The year is the decimal year without padding, four digits from 1000
  to 9999; the month is the three-letter English abbreviation; the day has one or two
  digits.
\<close>

theorem settlement_key:
  assumes dec: "decode_mcm parse pl = Some ((eventId, openDate) # rest)"
    and eid: "plain_elem eventId"
    and mid: "CHR ''/'' \<notin> set marketID"
    and base: "list_all plain_elem
                 (split_slash (if basePath s = [] then ''raw_greyhounds_data'' else basePath s))"
  shows "\<exists>info. ExtractEventInfo parse pl = Inr info
     \<and> BuildS3Key s info (marketID @ ''.bz2'') =
         (if basePath s = [] then ''raw_greyhounds_data'' else basePath s) @ ''/PRO/''
           @ Itoa (year openDate) @ ''/'' @ month_abbrev (month openDate) @ ''/''
           @ Itoa (int (day openDate)) @ ''/'' @ eventId @ ''/'' @ marketID @ ''.bz2''
     \<and> (1000 \<le> year openDate \<and> year openDate \<le> 9999 \<longrightarrow> length (Itoa (year openDate)) = 4)
     \<and> length (month_abbrev (month openDate)) = 3
     \<and> (1 \<le> day openDate \<and> day openDate \<le> 31 \<longrightarrow>
           length (Itoa (int (day openDate))) = 1 \<or> length (Itoa (int (day openDate))) = 2)"
proof -
  define info where "info = \<lparr>EventID = eventId, Date = openDate, Year = Itoa (year openDate),
      Month = month_abbrev (month openDate), Day = Itoa (int (day openDate))\<rparr>"
  define b where "b = (if basePath s = [] then ''raw_greyhounds_data'' else basePath s)"
  from eid have "eventId \<noteq> []" by (simp add: plain_elem_def)
  with dec have e: "ExtractEventInfo parse pl = Inr info"
    by (simp add: ExtractEventInfo_def info_def)
  have elems: "list_all plain_elem [''PRO'', Itoa (year openDate), month_abbrev (month openDate),
      Itoa (int (day openDate)), eventId, marketID @ ''.bz2'']"
    using eid plain_elem_filename [OF mid]
    by (simp add: plain_elem_Itoa plain_elem_month) (simp add: plain_elem_def)
  have "BuildS3Key s info (marketID @ ''.bz2'') =
      Join [b, ''PRO'', Itoa (year openDate), month_abbrev (month openDate),
        Itoa (int (day openDate)), eventId, marketID @ ''.bz2'']"
    by (simp add: BuildS3Key_def info_def b_def Let_def)
  also have "\<dots> = join_slash [b, ''PRO'', Itoa (year openDate), month_abbrev (month openDate),
        Itoa (int (day openDate)), eventId, marketID @ ''.bz2'']"
    using base elems unfolding b_def [symmetric] by (intro Join_plain) simp_all
  also have "\<dots> = b @ ''/PRO/'' @ Itoa (year openDate) @ ''/'' @ month_abbrev (month openDate)
        @ ''/'' @ Itoa (int (day openDate)) @ ''/'' @ eventId @ ''/'' @ marketID @ ''.bz2''"
    by simp
  finally have key: "BuildS3Key s info (marketID @ ''.bz2'') =
      b @ ''/PRO/'' @ Itoa (year openDate) @ ''/'' @ month_abbrev (month openDate)
        @ ''/'' @ Itoa (int (day openDate)) @ ''/'' @ eventId @ ''/'' @ marketID @ ''.bz2''" .
  have y: "1000 \<le> year openDate \<and> year openDate \<le> 9999 \<longrightarrow> length (Itoa (year openDate)) = 4"
    by (auto simp: Itoa_def intro!: length_digits_4)
  have d: "1 \<le> day openDate \<and> day openDate \<le> 31 \<longrightarrow>
           length (Itoa (int (day openDate))) = 1 \<or> length (Itoa (int (day openDate))) = 2"
  proof (cases "day openDate < 10")
    case True
    then show ?thesis by (simp add: Itoa_def length_digits_1)
  next
    case False
    then show ?thesis by (auto simp: Itoa_def intro!: length_digits_2)
  qed
  show ?thesis
    using e key y d plain_elem_month(2) [of "month openDate"]
    unfolding b_def by (intro exI [of _ info]) simp
qed


theorem settlement_key_witness:
  "decode_mcm parse_sample closing_payload
     = Some [(''E'', \<lparr>year = 2025, month = September, day = 26\<rparr>)]
   \<and> plain_elem ''E'' \<and> CHR ''/'' \<notin> set ''1.T''
   \<and> list_all plain_elem (split_slash ''raw_greyhounds_data'')
   \<and> BuildS3Key \<lparr>bucket = ''b'', basePath = []\<rparr>
        \<lparr>EventID = ''E'', Date = \<lparr>year = 2025, month = September, day = 26\<rparr>,
          Year = ''2025'', Month = ''Sep'', Day = ''26''\<rparr> (''1.T'' @ ''.bz2'')
       = ''raw_greyhounds_data/PRO/2025/Sep/26/E/1.T.bz2''"
proof -
  have a: "decode_mcm parse_sample closing_payload
     = Some ((''E'', \<lparr>year = 2025, month = September, day = 26\<rparr>) # [])"
    by (simp add: closing_payload_def eval_defs sample_defs)
  have b: "plain_elem ''E''" by (simp add: plain_elem_def)
  have c: "CHR ''/'' \<notin> set ''1.T''" by simp
  have d: "list_all plain_elem
      (split_slash (if basePath \<lparr>bucket = ''b'', basePath = []\<rparr> = [] then ''raw_greyhounds_data''
                    else basePath \<lparr>bucket = ''b'', basePath = []\<rparr>))"
    by (simp add: plain_elem_def)
  from settlement_key [OF a b c d] show ?thesis
    using a b c d by (simp add: closing_info sample_numbers)
qed


text \<open>
  The claim as stated fails on a settlement payload that has an event id and no open
  date: the key is built from the zero time, and its year is \<^verbatim>\<open>1\<close>, not four digits.
\<close>

theorem undated_settlement_key:
  "ExtractEventInfo parse_sample undated_payload =
     Inr \<lparr>EventID = ''12345'', Date = \<lparr>year = 1, month = January, day = 1\<rparr>,
          Year = ''1'', Month = ''Jan'', Day = ''1''\<rparr>
   \<and> BuildS3Key \<lparr>bucket = ''b'', basePath = []\<rparr>
        \<lparr>EventID = ''12345'', Date = \<lparr>year = 1, month = January, day = 1\<rparr>,
          Year = ''1'', Month = ''Jan'', Day = ''1''\<rparr> ''1.T.bz2''
       = ''raw_greyhounds_data/PRO/1/Jan/1/12345/1.T.bz2''"
  by (simp add: undated_payload_def eval_defs zero_time_def Itoa_def digits.simps
        Join_def Clean_def)

section \<open>The outer loop\<close>

text \<open>
  \<^verbatim>\<open>Run\<close> returns only the context's error, or an error of \<^verbatim>\<open>runWithReconnect\<close> that is
  or wraps a cancelled or expired context.
\<close>

theorem Run_returns_only_context_errors:
  assumes "Run fuel maxRetries retryDelay ctxErr passes i = Some e"
  shows "e = ctxErr \<or> errors_Is e Canceled \<or> errors_Is e DeadlineExceeded"
  using assms
  by (induction fuel arbitrary: i) (auto simp: Let_def split: if_splits)


theorem Run_returns_only_context_errors_witness:
  "Run 2 default_maxRetries default_retryDelay Canceled cancelled_pass 0 = Some Canceled"
proof -
  have r: "Run 2 default_maxRetries default_retryDelay Canceled cancelled_pass 0 = Some Canceled"
    by (simp add: numeral_2_eq_2 cancelled_pass_def refused_run Let_def)
  from Run_returns_only_context_errors [OF r] r show ?thesis by simp
qed

text \<open>
  Any other error, the spent retry budget included, is followed by a wait and another
  call of \<^verbatim>\<open>runWithReconnect\<close>: while the context is not done and no call returns a
  context error, \<^verbatim>\<open>Run\<close> has not returned after any number of passes.
\<close>

theorem Run_retries_after_budget:
  assumes "\<forall>j. i \<le> j \<and> j < i + fuel \<longrightarrow>
             \<not> done_before (passes j) \<and> \<not> done_in_wait (passes j)
             \<and> \<not> errors_Is (fst (runWithReconnect maxRetries retryDelay ctxErr (attempts (passes j)))) Canceled
             \<and> \<not> errors_Is (fst (runWithReconnect maxRetries retryDelay ctxErr (attempts (passes j)))) DeadlineExceeded"
  shows "Run fuel maxRetries retryDelay ctxErr passes i = None"
  using assms
proof (induction fuel arbitrary: i)
  case 0
  show ?case by simp
next
  case (Suc fuel)
  from Suc.prems have here: "\<not> done_before (passes i) \<and> \<not> done_in_wait (passes i)
             \<and> \<not> errors_Is (fst (runWithReconnect maxRetries retryDelay ctxErr (attempts (passes i)))) Canceled
             \<and> \<not> errors_Is (fst (runWithReconnect maxRetries retryDelay ctxErr (attempts (passes i)))) DeadlineExceeded"
    by simp
  from Suc.prems have "\<forall>j. Suc i \<le> j \<and> j < Suc i + fuel \<longrightarrow>
             \<not> done_before (passes j) \<and> \<not> done_in_wait (passes j)
             \<and> \<not> errors_Is (fst (runWithReconnect maxRetries retryDelay ctxErr (attempts (passes j)))) Canceled
             \<and> \<not> errors_Is (fst (runWithReconnect maxRetries retryDelay ctxErr (attempts (passes j)))) DeadlineExceeded"
    by simp
  from Suc.IH [OF this] here show ?case by (simp add: Let_def)
qed

lemma refused_pass_error:
  "fst (runWithReconnect default_maxRetries default_retryDelay Canceled (attempts (refusing_pass j)))
     = Wrapped ''max retries exceeded'' (Some (Msg ''dial failed''))"
  by (simp add: refusing_pass_def refused_run)

theorem Run_retries_after_budget_witness:
  "Run 3 default_maxRetries default_retryDelay Canceled refusing_pass 0 = None
   \<and> fst (runWithReconnect default_maxRetries default_retryDelay Canceled (attempts (refusing_pass 0)))
       = Wrapped ''max retries exceeded'' (Some (Msg ''dial failed''))"
proof -
  have h: "\<forall>j. 0 \<le> j \<and> j < 0 + 3 \<longrightarrow>
             \<not> done_before (refusing_pass j) \<and> \<not> done_in_wait (refusing_pass j)
             \<and> \<not> errors_Is (fst (runWithReconnect default_maxRetries default_retryDelay Canceled
                    (attempts (refusing_pass j)))) Canceled
             \<and> \<not> errors_Is (fst (runWithReconnect default_maxRetries default_retryDelay Canceled
                    (attempts (refusing_pass j)))) DeadlineExceeded"
    by (simp add: refused_pass_error) (simp add: refusing_pass_def)
  from Run_retries_after_budget [OF h] show ?thesis
    by (simp add: refused_pass_error)
qed

section \<open>Further properties of the steady-state loop\<close>

text \<open>
  When handling a market change starts the settlement transaction for the market, the
  catalogue cache has no entry for it afterwards.
\<close>

theorem settlement_evicts_catalogue:
  assumes "settlements m (process_market env data m marketChange st) \<noteq> settlements m st"
  shows "marketCatalogues (process_market env data m marketChange st) m = None"
proof -
  define st1 where "st1 = snd (fetchMarketCatalogue env m st)"
  define st2 where "st2 = (if status_of marketChange \<noteq> []
      then st1\<lparr>marketStatuses := (marketStatuses st1)(m \<mapsto> status_of marketChange)\<rparr> else st1)"
  define st3 where "st3 = (if writers st2 m = None
      then snd (createWriterForMarket (create_ok env) m st2) else st2)"
  define st4 where "st4 = fst (write_line env m data marketChange st3)"
  define st5 where "st5 = snd (handleMarketSettlement env m (singleMarketData data marketChange)
      (log_event (EvSettle m) st4))"
  have s1: "settlements m st1 = settlements m st"
    unfolding st1_def by (rule settlements_plain [OF fetch_appends])
  have s2: "settlements m st2 = settlements m st1"
    unfolding st2_def by (rule settlements_same_events) simp
  have s3: "settlements m st3 = settlements m st2"
    unfolding st3_def by (simp add: settlements_plain [OF create_appends])
  have s4: "settlements m st4 = settlements m st3"
    unfolding st4_def by (rule settlements_write_line)
  have "process_market env data m marketChange st = st4
      \<or> process_market env data m marketChange st
          = st5\<lparr>marketCatalogues := (marketCatalogues st5)(m := None)\<rparr>"
    by (simp add: process_market_def Let_def st1_def st2_def st3_def st4_def st5_def)
  then show ?thesis
  proof
    assume "process_market env data m marketChange st = st4"
    with assms s1 s2 s3 s4 show ?thesis by simp
  next
    assume "process_market env data m marketChange st
          = st5\<lparr>marketCatalogues := (marketCatalogues st5)(m := None)\<rparr>"
    then show ?thesis by simp
  qed
qed


theorem settlement_evicts_catalogue_witness:
  "settlements ''1.T'' (process_market io_ok [] ''1.T'' closing_change nadia_state) = 1
   \<and> settlements ''1.T'' nadia_state = 0
   \<and> marketCatalogues nadia_state ''1.T'' = Some nadia_catalogue
   \<and> marketCatalogues (process_market io_ok [] ''1.T'' closing_change nadia_state) ''1.T'' = None"
proof -
  have a: "settlements ''1.T'' (process_market io_ok [] ''1.T'' closing_change nadia_state) = 1"
    by (simp add: settlements_def closing_change_def nadia_state_def nadia_catalogue_def
          local_recording_state_def eval_defs sample_defs sample_paths sample_numbers)
  have b: "settlements ''1.T'' nadia_state = 0"
    by (simp add: settlements_def nadia_state_def local_recording_state_def eval_defs
          sample_defs sample_paths)
  have c: "marketCatalogues nadia_state ''1.T'' = Some nadia_catalogue"
    by (simp add: nadia_state_def)
  from a b have "settlements ''1.T'' (process_market io_ok [] ''1.T'' closing_change nadia_state)
      \<noteq> settlements ''1.T'' nadia_state" by simp
  from settlement_evicts_catalogue [OF this] a b c show ?thesis by simp
qed

text \<open>
  A frame with \<^verbatim>\<open>op\<close> \<^verbatim>\<open>mcm\<close> and change type \<^verbatim>\<open>HEARTBEAT\<close> writes nothing and updates
  no status; only the clocks are read from it.
\<close>

theorem heartbeat_changes_only_clocks:
  assumes "ExtractOp (fst fr) = ''mcm''" and "ExtractChangeType (fst fr) = ''HEARTBEAT''"
  shows "events (readMessage st fr) = events st \<and> fs (readMessage st fr) = fs st
     \<and> marketStatuses (readMessage st fr) = marketStatuses st
     \<and> writers (readMessage st fr) = writers st"
  using assms by (simp add: readMessage_def Let_def store_clocks_def split: prod.splits)


theorem heartbeat_changes_only_clocks_witness:
  "ExtractOp (fst heartbeat_frame) = ''mcm'' \<and> ExtractChangeType (fst heartbeat_frame) = ''HEARTBEAT''
   \<and> events (readMessage recording_state heartbeat_frame) = events recording_state
   \<and> clk (readMessage recording_state heartbeat_frame) = ''9''"
proof -
  have a: "ExtractOp (fst heartbeat_frame) = ''mcm''"
    by (simp add: heartbeat_frame_def ExtractOp_def string_field_def)
  have b: "ExtractChangeType (fst heartbeat_frame) = ''HEARTBEAT''"
    by (simp add: heartbeat_frame_def ExtractChangeType_def string_field_def)
  have c: "clk (readMessage recording_state heartbeat_frame) = ''9''"
    by (simp add: readMessage_clk heartbeat_frame_def ExtractAndStoreClock_def string_field_def)
  from heartbeat_changes_only_clocks [OF a b, of recording_state] a b c show ?thesis by simp
qed

text \<open>Cleaning up a path that holds no file leaves the file system as it is.\<close>

theorem cleanup_of_missing_file:
  assumes "fs st file = None"
  shows "fs (CleanupFiles [file] st) = fs st"
  using assms by (simp add: fun_eq_iff)

theorem cleanup_of_missing_file_witness:
  "fs start_state ''out/1.T'' = None
   \<and> fs (CleanupFiles [''out/1.T''] start_state) = fs start_state"
proof -
  have a: "fs start_state ''out/1.T'' = None"
    by (simp add: sample_defs)
  from cleanup_of_missing_file [OF a] a show ?thesis by simp
qed

end
